theory Spec2Isabelle
  imports
    Complex_Main
    "HOL-Library.Char_ord"
    "HOL-Library.List_Lexorder"
    "HOL-Library.Option_ord"
    "HOL-Library.Product_Lexorder"
begin

section \<open>Order management of La Vega: ingestion of Shopify exports and reports\<close>

text \<open>
  The development embeds \<^verbatim>\<open>app.py\<close>: the text extractor \<^verbatim>\<open>parse_note_attributes\<close>,
  the order grouper \<^verbatim>\<open>parse_shopify_csv\<close>, the upload handler \<^verbatim>\<open>upload_csv\<close>, the
  queries \<^verbatim>\<open>get_pedidos\<close> and \<^verbatim>\<open>get_lista_compras\<close>, and the order actions
  \<^verbatim>\<open>completar_pedido\<close> and \<^verbatim>\<open>eliminar_pedido\<close>.

  Modelling decisions.
  \<^item> A Python \<^verbatim>\<open>str\<close> is a \<open>string\<close> (the bytes of its UTF-8 encoding); a value that
    is a \<^verbatim>\<open>str\<close> or \<^verbatim>\<open>None\<close> is a \<open>string option\<close>. The character classes
    \<^verbatim>\<open>\s\<close> and \<^verbatim>\<open>\d\<close> are the ones of the ASCII range.
  \<^item> The builtins \<^verbatim>\<open>float\<close>, \<^verbatim>\<open>int\<close> and \<^verbatim>\<open>datetime.strptime\<close> are parameters
    (record \<open>builtins\<close>): each returns \<open>Inl e\<close> where the builtin raises \<open>e\<close>. Every
    general theorem holds for all behaviours of the builtins.
  \<^item> An exception is a value \<open>Inl e\<close> of a sum type; a handler that raises returns no
    new store, so nothing of the request is committed.
  \<^item> The SQLite tables are lists of rows in insertion order. Integers are Python's
    unbounded integers; the 64-bit limit of the storage engine is not part of the model.
  \<^item> The function \<^verbatim>\<open>parse_shopify_csv\<close> is modelled from the rows that
    \<^verbatim>\<open>csv.DictReader\<close> yields; decoding the upload and splitting it into rows belong to
    the libraries.
\<close>

subsection \<open>Python values and builtins\<close>

datatype error = ValueError | HTTPException nat

text \<open>Truth value of a \<^verbatim>\<open>str\<close> or \<^verbatim>\<open>None\<close>: \<^verbatim>\<open>None\<close> and the empty string are false.\<close>

fun truthy :: "string option \<Rightarrow> bool" where
  "truthy None = False"
| "truthy (Some s) = (s \<noteq> [])"

text \<open>\<^verbatim>\<open>a or b\<close> on such values.\<close>

definition py_or :: "string option \<Rightarrow> string option \<Rightarrow> string option" where
  "py_or a b = (if truthy a then a else b)"

text \<open>
  The builtins the handlers call. \<open>py_float0\<close> is \<^verbatim>\<open>float(0)\<close>; \<open>current_timestamp\<close>
  is the value of SQLite's \<^verbatim>\<open>CURRENT_TIMESTAMP\<close> when the \<^verbatim>\<open>pedidos\<close> row with the given
  id is inserted.
\<close>

record ('f, 't) builtins =
  py_float :: "string \<Rightarrow> error + 'f"
  py_float0 :: "'f"
  py_int :: "string \<Rightarrow> error + int"
  strptime :: "string \<Rightarrow> error + 't"
  current_timestamp :: "int \<Rightarrow> string"

text \<open>White space as \<^verbatim>\<open>\s\<close> and \<^verbatim>\<open>str.strip\<close> see it, and the digits of \<^verbatim>\<open>\d\<close>.\<close>

definition re_space :: "char \<Rightarrow> bool" where
  "re_space c \<longleftrightarrow> c \<in> set [CHR 0x09, CHR 0x0A, CHR 0x0B, CHR 0x0C, CHR 0x0D,
                          CHR 0x1C, CHR 0x1D, CHR 0x1E, CHR 0x1F, CHR 0x20]"

definition re_digit :: "char \<Rightarrow> bool" where
  "re_digit c \<longleftrightarrow> c \<in> set ''0123456789''"

definition py_strip :: "string \<Rightarrow> string" where
  "py_strip s = rev (dropWhile re_space (rev (dropWhile re_space s)))"

definition startswith :: "string \<Rightarrow> string \<Rightarrow> bool" where
  "startswith s pre \<longleftrightarrow> take (length pre) s = pre"


text \<open>\<^verbatim>\<open>s.split(sep)[0]\<close>: the text before the first occurrence of \<open>sep\<close>.\<close>

fun split_first :: "string \<Rightarrow> string \<Rightarrow> string" where
  "split_first sep [] = []"
| "split_first sep (c # cs) =
     (if startswith (c # cs) sep then [] else c # split_first sep cs)"

text \<open>
  \<^verbatim>\<open>re.search\<close>: the match at the leftmost position where the pattern matches; \<open>m\<close> is
  the pattern anchored at the start of its argument.
\<close>

fun re_search :: "(string \<Rightarrow> 'a option) \<Rightarrow> string \<Rightarrow> 'a option" where
  "re_search m [] = m []"
| "re_search m (c # cs) = (case m (c # cs) of Some r \<Rightarrow> Some r | None \<Rightarrow> re_search m cs)"

subsection \<open>Text extractor\<close>

text \<open>
  \<^verbatim>\<open>Comuna de Entrega:\s*([^\n]+)\<close> anchored at the start of \<open>s\<close>, returning group 1.
  \<^verbatim>\<open>\s*\<close> is greedy. When a character follows the white space, the group is the run up
  to the next newline. When the text ends in the white space, the matcher backtracks and
  the group is the last character of the white space that is not a newline.
\<close>

definition match_comuna :: "string \<Rightarrow> string option" where
  "match_comuna s =
     (if startswith s ''Comuna de Entrega:'' then
        (let r = drop (length ''Comuna de Entrega:'') s;
             w = takeWhile re_space r;
             r' = dropWhile re_space r
         in if r' \<noteq> [] then Some (takeWhile (\<lambda>c. c \<noteq> CHR 0x0A) r')
            else (case rev (filter (\<lambda>c. c \<noteq> CHR 0x0A) w) of
                    [] \<Rightarrow> None
                  | c # _ \<Rightarrow> Some [c]))
      else None)"

text \<open>\<^verbatim>\<open>(\d{4}-\d{2}-\d{2})\<close> anchored at the start of \<open>s\<close>.\<close>

fun match_date :: "string \<Rightarrow> string option" where
  "match_date (a # b # c # d # e # f # g # h # i # j # _) =
     (if re_digit a \<and> re_digit b \<and> re_digit c \<and> re_digit d \<and> e = CHR ''-'' \<and>
         re_digit f \<and> re_digit g \<and> h = CHR ''-'' \<and> re_digit i \<and> re_digit j
      then Some [a, b, c, d, e, f, g, h, i, j] else None)"
| "match_date _ = None"

text \<open>\<^verbatim>\<open>Fecha de Entrega:\s*(\d{4}-\d{2}-\d{2})\<close> anchored at the start of \<open>s\<close>.\<close>

definition match_fecha :: "string \<Rightarrow> string option" where
  "match_fecha s =
     (if startswith s ''Fecha de Entrega:''
      then match_date (dropWhile re_space (drop (length ''Fecha de Entrega:'') s))
      else None)"

text \<open>The result dictionary \<^verbatim>\<open>{'comuna': ..., 'fecha_entrega': ...}\<close> is a pair.\<close>

definition parse_note_attributes :: "string option \<Rightarrow> string option \<times> string option" where
  "parse_note_attributes note_attrs =
     (case note_attrs of
        None \<Rightarrow> (None, None)
      | Some s \<Rightarrow>
          if s = [] then (None, None)
          else (map_option py_strip (re_search match_comuna s), re_search match_fecha s))"

subsection \<open>Order grouper\<close>

text \<open>
  A row of \<^verbatim>\<open>csv.DictReader\<close>: a column of the header maps to its text, or to
  \<^verbatim>\<open>None\<close> when the line is shorter than the header; other keys are absent.
\<close>

type_synonym row = "string \<Rightarrow> string option option"

text \<open>\<^verbatim>\<open>row.get(k, d)\<close>.\<close>

definition row_get :: "row \<Rightarrow> string \<Rightarrow> string option \<Rightarrow> string option" where
  "row_get row k d = (case row k of None \<Rightarrow> d | Some v \<Rightarrow> v)"

record 'f item =
  producto :: string
  cantidad :: int
  precio :: "'f"
  sku :: "string option"

record ('f, 't) order =
  order_number :: string
  email :: "string option"
  comuna :: "string option"
  fecha_entrega :: "string option"
  nombre_cliente :: "string option"
  direccion :: "string option"
  telefono :: "string option"
  total :: "'f"
  created_at :: "'t option"
  items :: "'f item list"

text \<open>
  \<^verbatim>\<open>float(v or 0)\<close> and \<^verbatim>\<open>int(v or 1)\<close> for \<open>v\<close> a \<^verbatim>\<open>str\<close> or \<^verbatim>\<open>None\<close>. The defaults
  \<^verbatim>\<open>0\<close> and \<^verbatim>\<open>1\<close> of \<^verbatim>\<open>row.get\<close> are numbers, so a missing column and an empty
  text take the same branch.
\<close>

definition float_or_0 :: "('f, 't) builtins \<Rightarrow> string option \<Rightarrow> error + 'f" where
  "float_or_0 B v = (case v of
       None \<Rightarrow> Inr (py_float0 B)
     | Some s \<Rightarrow> if s = [] then Inr (py_float0 B) else py_float B s)"

definition int_or_1 :: "('f, 't) builtins \<Rightarrow> string option \<Rightarrow> error + int" where
  "int_or_1 B v = (case v of
       None \<Rightarrow> Inr 1
     | Some s \<Rightarrow> if s = [] then Inr 1 else py_int B s)"

text \<open>
  The creation timestamp: the text before \<^verbatim>\<open>' -'\<close> and before \<^verbatim>\<open>' +'\<close> is given to
  \<^verbatim>\<open>strptime\<close> inside \<^verbatim>\<open>try\<close>; the bare \<^verbatim>\<open>except: pass\<close> turns every exception into
  \<^verbatim>\<open>None\<close>.
\<close>

definition parse_created_at :: "('f, 't) builtins \<Rightarrow> row \<Rightarrow> 't option" where
  "parse_created_at B row =
     (case row_get row ''Created at'' None of
        None \<Rightarrow> None
      | Some s \<Rightarrow>
          if s = [] then None
          else (case strptime B (split_first '' +'' (split_first '' -'' s)) of
                  Inl _ \<Rightarrow> None
                | Inr t \<Rightarrow> Some t))"

text \<open>The dictionary built for the first row of an order number.\<close>

definition new_order :: "('f, 't) builtins \<Rightarrow> string \<Rightarrow> row \<Rightarrow> error + ('f, 't) order" where
  "new_order B number row =
     (let note_attrs = parse_note_attributes (row_get row ''Note Attributes'' (Some []));
          created = parse_created_at B row
      in case float_or_0 B (row_get row ''Total'' None) of
           Inl e \<Rightarrow> Inl e
         | Inr t \<Rightarrow> Inr \<lparr>
             order_number = number,
             email = row_get row ''Email'' (Some []),
             comuna = fst note_attrs,
             fecha_entrega = snd note_attrs,
             nombre_cliente = py_or (row_get row ''Shipping Name'' (Some []))
                                    (row_get row ''Billing Name'' (Some [])),
             direccion = row_get row ''Shipping Address1'' (Some []),
             telefono = py_or (row_get row ''Phone'' (Some []))
                              (row_get row ''Shipping Phone'' (Some [])),
             total = t,
             created_at = created,
             items = [] \<rparr>)"

text \<open>The item dictionary of a row whose \<^verbatim>\<open>Lineitem name\<close> is \<open>name\<close>.\<close>

definition new_item :: "('f, 't) builtins \<Rightarrow> string \<Rightarrow> row \<Rightarrow> error + 'f item" where
  "new_item B name row =
     (case int_or_1 B (row_get row ''Lineitem quantity'' None) of
        Inl e \<Rightarrow> Inl e
      | Inr q \<Rightarrow>
          (case float_or_0 B (row_get row ''Lineitem price'' None) of
             Inl e \<Rightarrow> Inl e
           | Inr p \<Rightarrow> Inr \<lparr> producto = name, cantidad = q, precio = p,
                            sku = row_get row ''Lineitem sku'' (Some []) \<rparr>))"

text \<open>
  The dictionary \<^verbatim>\<open>orders\<close> keeps its keys in insertion order: an association list.
  \<open>append_item\<close> is \<^verbatim>\<open>orders[order_number]['items'].append(it)\<close>.
\<close>

fun append_item :: "string \<Rightarrow> 'f item \<Rightarrow> (string \<times> ('f, 't) order) list
                    \<Rightarrow> (string \<times> ('f, 't) order) list" where
  "append_item k it [] = []"
| "append_item k it ((k', ord) # rest) =
     (if k' = k then (k', ord\<lparr>items := items ord @ [it]\<rparr>) # rest
      else (k', ord) # append_item k it rest)"

text \<open>The body of the loop over the rows.\<close>

definition process_row :: "('f, 't) builtins \<Rightarrow> (string \<times> ('f, 't) order) list \<Rightarrow> row
                           \<Rightarrow> error + (string \<times> ('f, 't) order) list" where
  "process_row B orders row =
     (case row_get row ''Name'' (Some []) of
        None \<Rightarrow> Inr orders
      | Some number \<Rightarrow>
          if number = [] then Inr orders
          else
            (case (if number \<in> set (map fst orders) then Inr orders
                   else (case new_order B number row of
                           Inl e \<Rightarrow> Inl e
                         | Inr ord \<Rightarrow> Inr (orders @ [(number, ord)]))) of
               Inl e \<Rightarrow> Inl e
             | Inr orders' \<Rightarrow>
                 (case row_get row ''Lineitem name'' None of
                    None \<Rightarrow> Inr orders'
                  | Some name \<Rightarrow>
                      if name = [] then Inr orders'
                      else (case new_item B name row of
                              Inl e \<Rightarrow> Inl e
                            | Inr it \<Rightarrow> Inr (append_item number it orders')))))"

fun group_rows :: "('f, 't) builtins \<Rightarrow> (string \<times> ('f, 't) order) list \<Rightarrow> row list
                   \<Rightarrow> error + (string \<times> ('f, 't) order) list" where
  "group_rows B orders [] = Inr orders"
| "group_rows B orders (row # rows) =
     (case process_row B orders row of
        Inl e \<Rightarrow> Inl e
      | Inr orders' \<Rightarrow> group_rows B orders' rows)"

definition parse_shopify_csv :: "('f, 't) builtins \<Rightarrow> row list \<Rightarrow> error + ('f, 't) order list" where
  "parse_shopify_csv B rows =
     (case group_rows B [] rows of
        Inl e \<Rightarrow> Inl e
      | Inr orders \<Rightarrow> Inr (map snd orders))"

subsection \<open>Notions for stating the properties of the grouper\<close>

text \<open>The order number of a row, \<open>None\<close> for a row that the loop skips.\<close>

definition row_number :: "row \<Rightarrow> string option" where
  "row_number row =
     (case row_get row ''Name'' (Some []) of
        None \<Rightarrow> None
      | Some number \<Rightarrow> if number = [] then None else Some number)"

text \<open>What a row contributes as line item: nothing, an item, or the error of a
  number that does not parse.\<close>

definition row_item :: "('f, 't) builtins \<Rightarrow> row \<Rightarrow> (error + 'f item) option" where
  "row_item B row =
     (case row_get row ''Lineitem name'' None of
        None \<Rightarrow> None
      | Some name \<Rightarrow> if name = [] then None else Some (new_item B name row))"

definition order_numbers :: "row list \<Rightarrow> string list" where
  "order_numbers rows = List.map_filter row_number rows"

definition rows_of :: "string \<Rightarrow> row list \<Rightarrow> row list" where
  "rows_of number rows = filter (\<lambda>r. row_number r = Some number) rows"

text \<open>The distinct elements of a list in the order of their first occurrence.\<close>

definition first_seen :: "'a list \<Rightarrow> 'a list" where
  "first_seen xs = rev (remdups (rev xs))"


text \<open>
  What the loop over the rows has built after the rows \<open>rows\<close>: one entry per order
  number in first-seen order, its scalar fields those of the first row with the number,
  its items those of all the rows with the number.
\<close>

definition grouped :: "('f, 't) builtins \<Rightarrow> row list \<Rightarrow> (string \<times> ('f, 't) order) list \<Rightarrow> bool" where
  "grouped B rows res \<longleftrightarrow>
     map fst res = first_seen (order_numbers rows) \<and>
     (\<forall>(n, ord) \<in> set res.
        new_order B n (hd (rows_of n rows)) = Inr (ord\<lparr>items := []\<rparr>) \<and>
        map Inr (items ord) = List.map_filter (row_item B) (rows_of n rows))"

subsection \<open>The store\<close>

text \<open>
  One record per table row, the fields named after the columns with the alias the
  queries use (\<open>p\<close>, \<open>lp\<close>, \<open>c\<close>, \<open>pc\<close>). The \<open>seq\<close> fields are the rows of
  \<^verbatim>\<open>sqlite_sequence\<close>: the largest id an \<^verbatim>\<open>AUTOINCREMENT\<close> table has ever used.
\<close>

record ('f, 't) pedido =
  p_id :: int
  p_order_number :: string
  p_email :: "string option"
  p_comuna :: "string option"
  p_fecha_entrega :: "string option"
  p_direccion :: "string option"
  p_telefono :: "string option"
  p_nombre_cliente :: "string option"
  p_total :: "'f"
  p_created_at :: "'t option"
  p_imported_at :: string
  p_status :: string

record 'f linea =
  lp_id :: int
  lp_pedido_id :: int
  lp_producto :: string
  lp_cantidad :: int
  lp_precio :: "'f"
  lp_sku :: "string option"

record categoria =
  c_id :: int
  c_nombre :: string
  c_orden :: int

record prodcat =
  pc_id :: int
  pc_producto :: string
  pc_categoria_id :: int

record ('f, 't) store =
  pedidos :: "('f, 't) pedido list"
  lineas_pedido :: "'f linea list"
  categorias :: "categoria list"
  producto_categoria :: "prodcat list"
  seq_pedidos :: int
  seq_lineas :: int
  seq_categorias :: int

definition pendiente :: string where
  "pendiente = ''pendiente''"

definition completado :: string where
  "completado = ''completado''"

text \<open>The name of the synthetic category; its accented letter i is the two bytes C3 AD.\<close>

definition sin_categoria :: string where
  "sin_categoria = ''Sin Categor'' @ [CHR 0xC3, CHR 0xAD] @ ''a''"

text \<open>
  The id an \<^verbatim>\<open>AUTOINCREMENT\<close> table gives a new row: one more than the largest id
  the table holds or has ever held.
\<close>

definition next_rowid :: "int \<Rightarrow> int list \<Rightarrow> int" where
  "next_rowid seq ids = fold max ids (max seq 0) + 1"

subsection \<open>Upload\<close>






subsection \<open>Categories\<close>

text \<open>
  \<^verbatim>\<open>create_categoria\<close>: \<^verbatim>\<open>MAX(orden)\<close> is \<^verbatim>\<open>NULL\<close> on an empty table, and
  \<^verbatim>\<open>or 0\<close> makes it 0; a name the table holds violates \<^verbatim>\<open>UNIQUE\<close> and gives
  status 400.
\<close>

definition create_categoria :: "('f, 't) store \<Rightarrow> string \<Rightarrow> error + ('f, 't) store \<times> int" where
  "create_categoria st nombre =
     (let max_orden = (case map c_orden (categorias st) of
                         [] \<Rightarrow> 0
                       | x # xs \<Rightarrow> fold max xs x)
      in if nombre \<in> set (map c_nombre (categorias st)) then Inl (HTTPException 400)
         else (let cid = next_rowid (seq_categorias st) (map c_id (categorias st))
               in Inr (st\<lparr> categorias := categorias st @
                              [\<lparr> c_id = cid, c_nombre = nombre, c_orden = max_orden + 1 \<rparr>],
                           seq_categorias := cid \<rparr>, cid)))"

subsection \<open>Queries\<close>

text \<open>
  \<^verbatim>\<open>get_pedidos\<close>: the filters apply when the argument is given and not empty; the
  rows come \<^verbatim>\<open>ORDER BY fecha_entrega, order_number\<close> (\<^verbatim>\<open>NULL\<close> first, text by its
  bytes), each with the lines whose \<^verbatim>\<open>pedido_id\<close> is its id.
\<close>

definition get_pedidos :: "('f, 't) store \<Rightarrow> string option \<Rightarrow> string option
                           \<Rightarrow> (('f, 't) pedido \<times> 'f linea list) list" where
  "get_pedidos st fecha status =
     (let sel = filter (\<lambda>p. (truthy fecha \<longrightarrow> p_fecha_entrega p = fecha) \<and>
                              (truthy status \<longrightarrow> Some (p_status p) = status)) (pedidos st);
          ordered = sort_key (\<lambda>p. (p_fecha_entrega p, p_order_number p)) sel
      in map (\<lambda>p. (p, filter (\<lambda>l. lp_pedido_id l = p_id p) (lineas_pedido st))) ordered)"

text \<open>The picking manifest of a date, as \<^verbatim>\<open>descargar_pedidos_armado\<close> asks for it.\<close>

definition picking_manifest :: "('f, 't) store \<Rightarrow> string
                                \<Rightarrow> (('f, 't) pedido \<times> 'f linea list) list" where
  "picking_manifest st fecha = get_pedidos st (Some fecha) (Some pendiente)"

text \<open>
  The joins of \<^verbatim>\<open>get_lista_compras\<close>. \<^verbatim>\<open>pedidos.id\<close>, \<^verbatim>\<open>categorias.id\<close> and
  \<^verbatim>\<open>producto_categoria.producto\<close> are keys of their tables, so each join is a lookup.
\<close>

definition in_scope :: "('f, 't) store \<Rightarrow> string \<Rightarrow> 'f linea \<Rightarrow> bool" where
  "in_scope st fecha l \<longleftrightarrow>
     (case find (\<lambda>p. p_id p = lp_pedido_id l) (pedidos st) of
        None \<Rightarrow> False
      | Some p \<Rightarrow> p_fecha_entrega p = Some fecha \<and> p_status p = pendiente)"

text \<open>The category row \<open>c\<close> that the two \<^verbatim>\<open>LEFT JOIN\<close>s attach to a product, if any.\<close>

definition categoria_of :: "('f, 't) store \<Rightarrow> string \<Rightarrow> categoria option" where
  "categoria_of st pr =
     (case find (\<lambda>pc. pc_producto pc = pr) (producto_categoria st) of
        None \<Rightarrow> None
      | Some pc \<Rightarrow> find (\<lambda>c. c_id c = pc_categoria_id pc) (categorias st))"

record lista_row =
  r_producto :: string
  r_cantidad_total :: int
  r_categoria :: string
  r_categoria_orden :: int

text \<open>
  One row per product in scope (\<^verbatim>\<open>GROUP BY lp.producto\<close>) with \<^verbatim>\<open>SUM(lp.cantidad)\<close>
  and the two \<^verbatim>\<open>COALESCE\<close> columns.
\<close>

definition lista_rows :: "('f, 't) store \<Rightarrow> string \<Rightarrow> lista_row list" where
  "lista_rows st fecha =
     (let scope = filter (in_scope st fecha) (lineas_pedido st)
      in map (\<lambda>pr.
            \<lparr> r_producto = pr,
              r_cantidad_total =
                sum_list (map lp_cantidad (filter (\<lambda>l. lp_producto l = pr) scope)),
              r_categoria = (case categoria_of st pr of
                               None \<Rightarrow> sin_categoria | Some c \<Rightarrow> c_nombre c),
              r_categoria_orden = (case categoria_of st pr of
                                     None \<Rightarrow> 999 | Some c \<Rightarrow> c_orden c) \<rparr>)
           (remdups (map lp_producto scope)))"

text \<open>
  \<^verbatim>\<open>ORDER BY categoria_orden, c.nombre, lp.producto\<close>: \<^verbatim>\<open>c.nombre\<close> is \<^verbatim>\<open>NULL\<close>
  for a product without category row, and \<^verbatim>\<open>NULL\<close> sorts first.
\<close>

definition lista_key :: "('f, 't) store \<Rightarrow> lista_row \<Rightarrow> int \<times> string option \<times> string" where
  "lista_key st r =
     (r_categoria_orden r, map_option c_nombre (categoria_of st (r_producto r)), r_producto r)"

text \<open>
  The loop that fills \<^verbatim>\<open>por_categoria\<close>, a dictionary in insertion order:
  \<open>add_to_categoria cat x d\<close> appends \<open>x\<close> to the list of key \<open>cat\<close>, creating the key at
  the end when it is new.
\<close>

fun add_to_categoria :: "string \<Rightarrow> 'a \<Rightarrow> (string \<times> 'a list) list \<Rightarrow> (string \<times> 'a list) list" where
  "add_to_categoria cat x [] = [(cat, [x])]"
| "add_to_categoria cat x ((k, v) # rest) =
     (if k = cat then (k, v @ [x]) # rest else (k, v) # add_to_categoria cat x rest)"

definition por_categoria :: "lista_row list \<Rightarrow> (string \<times> (string \<times> int) list) list" where
  "por_categoria its =
     fold (\<lambda>item d. add_to_categoria (r_categoria item)
                        (r_producto item, r_cantidad_total item) d) its []"

definition get_lista_compras :: "('f, 't) store \<Rightarrow> string \<Rightarrow> (string \<times> (string \<times> int) list) list" where
  "get_lista_compras st fecha = por_categoria (sort_key (lista_key st) (lista_rows st fecha))"

subsection \<open>Order actions\<close>


text \<open>The two \<^verbatim>\<open>DELETE\<close> statements of \<^verbatim>\<open>eliminar_pedido\<close>.\<close>

definition eliminar_pedido :: "('f, 't) store \<Rightarrow> int \<Rightarrow> ('f, 't) store \<times> bool" where
  "eliminar_pedido st pedido_id =
     (st\<lparr> lineas_pedido := filter (\<lambda>l. lp_pedido_id l \<noteq> pedido_id) (lineas_pedido st),
          pedidos := filter (\<lambda>p. p_id p \<noteq> pedido_id) (pedidos st) \<rparr>, True)"

subsection \<open>An environment for concrete exports\<close>

text \<open>
  The builtins on the texts a Shopify export holds: \<open>ex_int\<close> on signed decimal integers,
  \<open>ex_float\<close> on signed decimal numbers with an optional fraction, \<open>ex_strptime\<close> on
  zero-padded timestamps \<^verbatim>\<open>YYYY-MM-DD HH:MM:SS\<close> of the calendar; each strips white
  space as the builtin does and returns \<open>ValueError\<close> on any other text. CPython reads
  some further spellings (exponents, underscores between digits, \<^verbatim>\<open>inf\<close>, date fields
  of one digit); the examples below use none of them. The environment serves only to
  evaluate the definitions on concrete inputs.
\<close>

text \<open>The value of a digit is its position in the text of the ten digits.\<close>

definition digit_of :: "char \<Rightarrow> nat" where
  "digit_of c = length (takeWhile (\<lambda>d. d \<noteq> c) ''0123456789'')"

fun nat_of_digits :: "nat \<Rightarrow> string \<Rightarrow> nat" where
  "nat_of_digits acc [] = acc"
| "nat_of_digits acc (c # cs) = nat_of_digits (10 * acc + digit_of c) cs"

definition all_digits :: "string \<Rightarrow> bool" where
  "all_digits s \<longleftrightarrow> list_all re_digit s"

text \<open>The sign and the rest of a stripped text.\<close>

fun split_sign :: "string \<Rightarrow> int \<times> string" where
  "split_sign [] = (1, [])"
| "split_sign (c # cs) =
     (if c = CHR ''-'' then (- 1, cs) else if c = CHR ''+'' then (1, cs) else (1, c # cs))"

definition ex_int :: "string \<Rightarrow> error + int" where
  "ex_int s =
     (case split_sign (py_strip s) of
        (sg, u) \<Rightarrow>
          if u \<noteq> [] \<and> all_digits u then Inr (sg * int (nat_of_digits 0 u))
          else Inl ValueError)"

definition ex_float :: "string \<Rightarrow> error + rat" where
  "ex_float s =
     (case split_sign (py_strip s) of
        (sg, u) \<Rightarrow>
          (let ip = takeWhile (\<lambda>c. c \<noteq> CHR ''.'') u;
               fp = drop 1 (dropWhile (\<lambda>c. c \<noteq> CHR ''.'') u)
           in if all_digits ip \<and> all_digits fp \<and> (ip \<noteq> [] \<or> fp \<noteq> [])
              then Inr (of_int sg * (of_nat (nat_of_digits 0 ip)
                          + of_nat (nat_of_digits 0 fp) / 10 ^ length fp))
              else Inl ValueError))"

definition days_in_month :: "nat \<Rightarrow> nat \<Rightarrow> nat" where
  "days_in_month y m =
     (if m = 2 then (if y mod 4 = 0 \<and> (y mod 100 \<noteq> 0 \<or> y mod 400 = 0) then 29 else 28)
      else if m \<in> {4, 6, 9, 11} then 30 else 31)"

fun ex_strptime :: "string \<Rightarrow> error + nat \<times> nat \<times> nat \<times> nat \<times> nat \<times> nat" where
  "ex_strptime [y1, y2, y3, y4, s1, m1, m2, s2, d1, d2, s3, h1, h2, s4, n1, n2, s5, c1, c2] =
     (let y = nat_of_digits 0 [y1, y2, y3, y4]; m = nat_of_digits 0 [m1, m2];
          d = nat_of_digits 0 [d1, d2]; h = nat_of_digits 0 [h1, h2];
          n = nat_of_digits 0 [n1, n2]; c = nat_of_digits 0 [c1, c2]
      in if all_digits [y1, y2, y3, y4, m1, m2, d1, d2, h1, h2, n1, n2, c1, c2] \<and>
            s1 = CHR ''-'' \<and> s2 = CHR ''-'' \<and> s3 = CHR '' '' \<and> s4 = CHR '':'' \<and> s5 = CHR '':'' \<and>
            1 \<le> y \<and> 1 \<le> m \<and> m \<le> 12 \<and> 1 \<le> d \<and> d \<le> days_in_month y m \<and>
            h \<le> 23 \<and> n \<le> 59 \<and> c \<le> 61
         then Inr (y, m, d, h, n, c) else Inl ValueError)"
| "ex_strptime _ = Inl ValueError"

definition ex_builtins :: "(rat, nat \<times> nat \<times> nat \<times> nat \<times> nat \<times> nat) builtins" where
  "ex_builtins = \<lparr> py_float = ex_float, py_float0 = 0, py_int = ex_int,
                   strptime = ex_strptime,
                   current_timestamp = (\<lambda>_. ''2024-05-01 12:00:00'') \<rparr>"

text \<open>A row from its cells: the columns of the header that the line fills.\<close>

definition mk_row :: "(string \<times> string) list \<Rightarrow> row" where
  "mk_row cells = (\<lambda>k. map_option Some (map_of cells k))"

text \<open>
  An export of four lines: two lines of order \<^verbatim>\<open>#1001\<close> (the second with other order
  fields and empty quantity and price), a blank line, and one line of order
  \<^verbatim>\<open>#1002\<close>, which has no delivery date.
\<close>

definition ex_rows :: "row list" where
  "ex_rows =
     [mk_row [(''Name'', ''#1001''), (''Email'', ''ana@vega.cl''), (''Total'', ''1500''),
              (''Created at'', ''2024-05-01 09:30:00 -0400''), (''Shipping Name'', ''Ana''),
              (''Note Attributes'',
                 ''Comuna de Entrega: Providencia\<newline>Fecha de Entrega: 2024-05-10''),
              (''Lineitem name'', ''Manzana''), (''Lineitem quantity'', ''3''),
              (''Lineitem price'', ''500'')],
      mk_row [(''Name'', ''#1001''), (''Email'', ''otra@vega.cl''), (''Total'', ''9999''),
              (''Shipping Name'', ''Otra''), (''Note Attributes'', ''Fecha de Entrega: 2030-01-01''),
              (''Lineitem name'', ''Pera''), (''Lineitem quantity'', []),
              (''Lineitem price'', [])],
      mk_row [(''Name'', [])],
      mk_row [(''Name'', ''#1002''), (''Email'', ''luis@vega.cl''), (''Total'', []),
              (''Lineitem name'', ''Leche''), (''Lineitem quantity'', ''1'')]]"

text \<open>The candidate orders of that export.\<close>

definition ex_orders :: "(rat, nat \<times> nat \<times> nat \<times> nat \<times> nat \<times> nat) order list" where
  "ex_orders =
     [\<lparr> order_number = ''#1001'', email = Some ''ana@vega.cl'',
        comuna = Some ''Providencia'', fecha_entrega = Some ''2024-05-10'',
        nombre_cliente = Some ''Ana'', direccion = Some [], telefono = Some [],
        total = 1500, created_at = Some (2024, 5, 1, 9, 30, 0),
        items = [\<lparr> producto = ''Manzana'', cantidad = 3, precio = 500, sku = Some [] \<rparr>,
                 \<lparr> producto = ''Pera'', cantidad = 1, precio = 0, sku = Some [] \<rparr>] \<rparr>,
      \<lparr> order_number = ''#1002'', email = Some ''luis@vega.cl'',
        comuna = None, fecha_entrega = None,
        nombre_cliente = Some [], direccion = Some [], telefono = Some [],
        total = 0, created_at = None,
        items = [\<lparr> producto = ''Leche'', cantidad = 1, precio = 0, sku = Some [] \<rparr>] \<rparr>]"

text \<open>An export whose only order has a total that is not a number.\<close>

definition ex_rows_bad_total :: "row list" where
  "ex_rows_bad_total =
     [mk_row [(''Name'', ''#3001''), (''Total'', ''abc''),
              (''Note Attributes'', ''Fecha de Entrega: 2024-05-10''),
              (''Lineitem name'', ''Pan''), (''Lineitem quantity'', ''2'')]]"


text \<open>A small store: three orders, five lines, three categories, three assignments.\<close>

definition ex_pedido :: "int \<Rightarrow> string \<Rightarrow> string \<Rightarrow> string
    \<Rightarrow> (rat, nat \<times> nat \<times> nat \<times> nat \<times> nat \<times> nat) pedido" where
  "ex_pedido i number fecha status =
     \<lparr> p_id = i, p_order_number = number, p_email = Some ''ana@vega.cl'',
       p_comuna = Some ''Providencia'', p_fecha_entrega = Some fecha,
       p_direccion = Some ''Av. Italia 100'', p_telefono = Some [],
       p_nombre_cliente = Some ''Ana'', p_total = 1500,
       p_created_at = Some (2024, 5, 1, 9, 30, 0),
       p_imported_at = ''2024-05-01 12:00:00'', p_status = status \<rparr>"

definition ex_linea :: "int \<Rightarrow> int \<Rightarrow> string \<Rightarrow> int \<Rightarrow> rat linea" where
  "ex_linea i pid pr q =
     \<lparr> lp_id = i, lp_pedido_id = pid, lp_producto = pr, lp_cantidad = q,
       lp_precio = 500, lp_sku = Some [] \<rparr>"

definition ex_store :: "(rat, nat \<times> nat \<times> nat \<times> nat \<times> nat \<times> nat) store" where
  "ex_store =
     \<lparr> pedidos = [ex_pedido 1 ''#1001'' ''2024-05-10'' pendiente,
                  ex_pedido 2 ''#1002'' ''2024-05-10'' pendiente,
                  ex_pedido 3 ''#1003'' ''2024-05-11'' completado],
       lineas_pedido = [ex_linea 1 1 ''Manzana'' 3, ex_linea 2 1 ''Pera'' 2,
                        ex_linea 3 2 ''Manzana'' 1, ex_linea 4 2 ''Leche'' 1,
                        ex_linea 5 3 ''Pan'' 2],
       categorias = [\<lparr> c_id = 1, c_nombre = ''Frutas'', c_orden = 1 \<rparr>,
                     \<lparr> c_id = 2, c_nombre = ''Verduras'', c_orden = 2 \<rparr>,
                     \<lparr> c_id = 4, c_nombre = ''Abarrotes'', c_orden = 4 \<rparr>],
       producto_categoria = [\<lparr> pc_id = 1, pc_producto = ''Pera'', pc_categoria_id = 1 \<rparr>,
                             \<lparr> pc_id = 2, pc_producto = ''Manzana'', pc_categoria_id = 1 \<rparr>,
                             \<lparr> pc_id = 3, pc_producto = ''Pan'', pc_categoria_id = 4 \<rparr>],
       seq_pedidos = 3, seq_lineas = 5, seq_categorias = 4 \<rparr>"

subsection \<open>Notions for stating the properties of the upload\<close>




subsection \<open>Notions for stating the properties of the reports\<close>

text \<open>
  A line belongs to the shopping list of a date when its parent order has status
  \<open>pendiente\<close> and that delivery date.
\<close>

definition pending_on :: "('f, 't) store \<Rightarrow> string \<Rightarrow> 'f linea \<Rightarrow> bool" where
  "pending_on st fecha l \<longleftrightarrow>
     (\<exists>p \<in> set (pedidos st). p_id p = lp_pedido_id l \<and> p_status p = pendiente \<and>
                               p_fecha_entrega p = Some fecha)"

text \<open>The entries of a shopping list, category after category.\<close>

definition entries :: "(string \<times> (string \<times> int) list) list \<Rightarrow> (string \<times> int) list" where
  "entries lista = concat (map snd lista)"

text \<open>
  The sort key of a category name of a shopping list: display order and name of the
  category of that name, and \<open>(999, None)\<close> for a name that no category has.
\<close>

definition cat_key :: "('f, 't) store \<Rightarrow> string \<Rightarrow> int \<times> string option" where
  "cat_key st nombre =
     (case find (\<lambda>c. c_nombre c = nombre) (categorias st) of
        None \<Rightarrow> (999, None)
      | Some c \<Rightarrow> (c_orden c, Some nombre))"

text \<open>
  The small store with a fourth category of display order 1000, to which the product
  \<^verbatim>\<open>Pera\<close> is assigned.
\<close>

definition ex_store_late :: "(rat, nat \<times> nat \<times> nat \<times> nat \<times> nat \<times> nat) store" where
  "ex_store_late =
     ex_store\<lparr> categorias := categorias ex_store @
                  [\<lparr> c_id = 8, c_nombre = ''Granel'', c_orden = 1000 \<rparr>],
               producto_categoria :=
                  [\<lparr> pc_id = 2, pc_producto = ''Manzana'', pc_categoria_id = 1 \<rparr>,
                   \<lparr> pc_id = 3, pc_producto = ''Pan'', pc_categoria_id = 4 \<rparr>,
                   \<lparr> pc_id = 4, pc_producto = ''Pera'', pc_categoria_id = 8 \<rparr>] \<rparr>"

section \<open>Properties\<close>

subsection \<open>The loop of the grouper\<close>

lemma process_row_alt:
  "process_row B orders row =
     (case row_number row of
        None \<Rightarrow> Inr orders
      | Some n \<Rightarrow>
          (case (if n \<in> set (map fst orders) then Inr orders
                 else (case new_order B n row of
                         Inl e \<Rightarrow> Inl e
                       | Inr ord \<Rightarrow> Inr (orders @ [(n, ord)]))) of
             Inl e \<Rightarrow> Inl e
           | Inr orders' \<Rightarrow>
               (case row_item B row of
                  None \<Rightarrow> Inr orders'
                | Some (Inl e) \<Rightarrow> Inl e
                | Some (Inr it) \<Rightarrow> Inr (append_item n it orders'))))"
  by (simp add: process_row_def row_number_def row_item_def split: option.splits sum.splits)

lemma group_rows_append:
  "group_rows B acc (xs @ ys) =
     (case group_rows B acc xs of Inl e \<Rightarrow> Inl e | Inr a \<Rightarrow> group_rows B a ys)"
  by (induction xs arbitrary: acc) (auto split: sum.splits)

lemma group_rows_snoc:
  "group_rows B acc (xs @ [r]) =
     (case group_rows B acc xs of Inl e \<Rightarrow> Inl e | Inr a \<Rightarrow> process_row B a r)"
  by (simp add: group_rows_append split: sum.splits)

lemma first_seen_snoc:
  "first_seen (xs @ [x]) = (if x \<in> set xs then first_seen xs else first_seen xs @ [x])"
  by (simp add: first_seen_def)

lemma set_first_seen [simp]: "set (first_seen xs) = set xs"
  by (simp add: first_seen_def)

lemma distinct_first_seen [simp]: "distinct (first_seen xs)"
  by (simp add: first_seen_def)

lemma order_numbers_snoc:
  "order_numbers (rows @ [r]) =
     (case row_number r of None \<Rightarrow> order_numbers rows | Some n \<Rightarrow> order_numbers rows @ [n])"
  by (simp add: order_numbers_def List.map_filter_def split: option.splits)

lemma rows_of_snoc:
  "rows_of n (rows @ [r]) = (if row_number r = Some n then rows_of n rows @ [r] else rows_of n rows)"
  by (simp add: rows_of_def)

lemma rows_of_empty_iff: "rows_of n rows = [] \<longleftrightarrow> n \<notin> set (order_numbers rows)"
  by (auto simp: rows_of_def order_numbers_def List.map_filter_def filter_empty_conv image_iff)

lemma append_item_distinct:
  "distinct (map fst orders) \<Longrightarrow>
   append_item n it orders =
     map (\<lambda>(k, ord). if k = n then (k, ord\<lparr>items := items ord @ [it]\<rparr>) else (k, ord)) orders"
proof (induction orders)
  case Nil then show ?case by simp
next
  case (Cons a orders)
  obtain k ord where a: "a = (k, ord)" by (cases a)
  have "k \<notin> fst ` set orders" using Cons.prems a by simp
  then have noop: "map (\<lambda>(k', ord). if k' = k then (k', ord\<lparr>items := items ord @ [it]\<rparr>) else (k', ord)) orders = orders"
    by (induction orders) (auto simp: image_iff)
  show ?case using Cons a noop by auto
qed

lemma new_order_items:
  "new_order B n r = Inr ord \<Longrightarrow> items ord = [] \<and> order_number ord = n"
  by (auto simp: new_order_def Let_def split: sum.splits)


lemma map_filter_snoc:
  "List.map_filter f (xs @ [x]) = (case f x of None \<Rightarrow> List.map_filter f xs | Some y \<Rightarrow> List.map_filter f xs @ [y])"
  by (simp add: List.map_filter_def split: option.splits)


lemma groupedI:
  assumes "map fst res = first_seen (order_numbers rows)"
    and "\<And>n ord. (n, ord) \<in> set res \<Longrightarrow>
           new_order B n (hd (rows_of n rows)) = Inr (ord\<lparr>items := []\<rparr>) \<and>
           map Inr (items ord) = List.map_filter (row_item B) (rows_of n rows)"
  shows "grouped B rows res"
  using assms by (auto simp: grouped_def)

lemma grouped_keys: "grouped B rows res \<Longrightarrow> map fst res = first_seen (order_numbers rows)"
  by (simp add: grouped_def)

lemma grouped_entry:
  "grouped B rows res \<Longrightarrow> (n, ord) \<in> set res \<Longrightarrow>
     new_order B n (hd (rows_of n rows)) = Inr (ord\<lparr>items := []\<rparr>) \<and>
     map Inr (items ord) = List.map_filter (row_item B) (rows_of n rows)"
  by (auto simp: grouped_def)

lemma grouped_skip:
  assumes "grouped B rows res" "row_number r = None"
  shows "grouped B (rows @ [r]) res"
  using assms by (simp add: grouped_def order_numbers_snoc rows_of_snoc)

lemma rows_of_snoc_hd:
  "rows_of n rows \<noteq> [] \<Longrightarrow> hd (rows_of n (rows @ [r])) = hd (rows_of n rows)"
  by (simp add: rows_of_snoc)

lemma grouped_known:
  assumes g: "grouped B rows res" and rn: "row_number r = Some n" and mem: "n \<in> set (map fst res)"
    and it: "row_item B r = None"
  shows "grouped B (rows @ [r]) res"
proof (rule groupedI)
  have n_in: "n \<in> set (order_numbers rows)" using g mem by (simp add: grouped_def)
  show "map fst res = first_seen (order_numbers (rows @ [r]))"
    using grouped_keys [OF g] rn n_in by (simp add: order_numbers_snoc first_seen_snoc)
  fix m ord assume e: "(m, ord) \<in> set res"
  then have "m \<in> set (order_numbers rows)"
    using grouped_keys [OF g] by (metis set_first_seen set_map image_eqI fst_conv)
  then have ne: "rows_of m rows \<noteq> []" by (simp add: rows_of_empty_iff)
  show "new_order B m (hd (rows_of m (rows @ [r]))) = Inr (ord\<lparr>items := []\<rparr>) \<and>
        map Inr (items ord) = List.map_filter (row_item B) (rows_of m (rows @ [r]))"
    using grouped_entry [OF g e] ne it
    by (simp add: rows_of_snoc_hd) (simp add: rows_of_snoc map_filter_snoc)
qed

lemma grouped_known_item:
  assumes g: "grouped B rows res" and rn: "row_number r = Some n" and mem: "n \<in> set (map fst res)"
    and it: "row_item B r = Some (Inr i)"
  shows "grouped B (rows @ [r]) (append_item n i res)"
proof -
  let ?f = "\<lambda>(k, ord). if k = n then (k, ord\<lparr>items := items ord @ [i]\<rparr>) else (k, ord)"
  have d: "distinct (map fst res)" using g by (simp add: grouped_def)
  have n_in: "n \<in> set (order_numbers rows)" using g mem by (simp add: grouped_def)
  have fst_eq: "map fst (map ?f res) = map fst res"
    by (induction res) auto
  have "grouped B (rows @ [r]) (map ?f res)"
  proof (rule groupedI)
    show "map fst (map ?f res) = first_seen (order_numbers (rows @ [r]))"
      unfolding fst_eq using grouped_keys [OF g] rn n_in
      by (simp add: order_numbers_snoc first_seen_snoc)
    fix m ord assume "(m, ord) \<in> set (map ?f res)"
    then obtain ord0 where e: "(m, ord0) \<in> set res"
      and ord: "ord = (if m = n then ord0\<lparr>items := items ord0 @ [i]\<rparr> else ord0)"
      by (auto split: if_splits)
    from e have "m \<in> set (order_numbers rows)"
      using grouped_keys [OF g] by (metis set_first_seen set_map image_eqI fst_conv)
    then have ne: "rows_of m rows \<noteq> []" by (simp add: rows_of_empty_iff)
    show "new_order B m (hd (rows_of m (rows @ [r]))) = Inr (ord\<lparr>items := []\<rparr>) \<and>
          map Inr (items ord) = List.map_filter (row_item B) (rows_of m (rows @ [r]))"
      using grouped_entry [OF g e] ne it rn ord
      by (simp add: rows_of_snoc_hd) (simp add: rows_of_snoc map_filter_snoc)
  qed
  then show ?thesis by (simp only: append_item_distinct [OF d])
qed

lemma grouped_new_gen:
  assumes g: "grouped B rows res" and rn: "row_number r = Some n" and mem: "n \<notin> set (map fst res)"
    and no: "new_order B n r = Inr ord"
    and it: "List.map_filter (row_item B) [r] = map Inr its"
  shows "grouped B (rows @ [r]) (res @ [(n, ord\<lparr>items := its\<rparr>)])"
proof (rule groupedI)
  have n_out: "n \<notin> set (order_numbers rows)" using g mem by (simp add: grouped_def)
  then have e: "rows_of n rows = []" by (simp add: rows_of_empty_iff)
  have oi: "ord\<lparr>items := []\<rparr> = ord" using new_order_items [OF no] by simp
  show "map fst (res @ [(n, ord\<lparr>items := its\<rparr>)]) = first_seen (order_numbers (rows @ [r]))"
    using grouped_keys [OF g] rn n_out by (simp add: order_numbers_snoc first_seen_snoc)
  fix m ord' assume "(m, ord') \<in> set (res @ [(n, ord\<lparr>items := its\<rparr>)])"
  then consider (old) "(m, ord') \<in> set res" | (new) "m = n" "ord' = ord\<lparr>items := its\<rparr>"
    by auto
  then show "new_order B m (hd (rows_of m (rows @ [r]))) = Inr (ord'\<lparr>items := []\<rparr>) \<and>
        map Inr (items ord') = List.map_filter (row_item B) (rows_of m (rows @ [r]))"
  proof cases
    case old
    then have "m \<in> set (map fst res)" by (metis set_map image_eqI fst_conv)
    then have mn: "m \<noteq> n" using mem by auto
    show ?thesis using grouped_entry [OF g old] mn rn by (simp add: rows_of_snoc)
  next
    case new
    show ?thesis using new e rn no oi it by (simp add: rows_of_snoc)
  qed
qed

lemma grouped_new:
  assumes g: "grouped B rows res" and rn: "row_number r = Some n" and mem: "n \<notin> set (map fst res)"
    and no: "new_order B n r = Inr ord" and it: "row_item B r = None"
  shows "grouped B (rows @ [r]) (res @ [(n, ord)])"
proof -
  have "List.map_filter (row_item B) [r] = map Inr ([] :: 'a item list)"
    using it by (simp add: List.map_filter_def)
  from grouped_new_gen [OF g rn mem no this]
  have "grouped B (rows @ [r]) (res @ [(n, ord\<lparr>items := []\<rparr>)])" .
  moreover have "ord\<lparr>items := []\<rparr> = ord" using new_order_items [OF no] by simp
  ultimately show ?thesis by simp
qed

lemma grouped_new_item:
  assumes g: "grouped B rows res" and rn: "row_number r = Some n" and mem: "n \<notin> set (map fst res)"
    and no: "new_order B n r = Inr ord" and it: "row_item B r = Some (Inr i)"
  shows "grouped B (rows @ [r]) (append_item n i (res @ [(n, ord)]))"
proof -
  have "List.map_filter (row_item B) [r] = map Inr [i]"
    using it by (simp add: List.map_filter_def)
  from grouped_new_gen [OF g rn mem no this]
  have "grouped B (rows @ [r]) (res @ [(n, ord\<lparr>items := [i]\<rparr>)])" .
  moreover have "append_item n i (res @ [(n, ord)]) = res @ [(n, ord\<lparr>items := items ord @ [i]\<rparr>)]"
    using mem by (induction res) auto
  ultimately show ?thesis using new_order_items [OF no] by simp
qed

lemma grouped_step:
  assumes g: "grouped B rows res" and p: "process_row B res r = Inr res'"
  shows "grouped B (rows @ [r]) res'"
proof (cases "row_number r")
  case None
  then show ?thesis using p grouped_skip [OF g] by (simp add: process_row_alt)
next
  case (Some n)
  show ?thesis
  proof (cases "n \<in> set (map fst res)")
    case True
    show ?thesis
    proof (cases "row_item B r")
      case None
      then show ?thesis
        using p Some True grouped_known [OF g Some True] by (simp add: process_row_alt)
    next
      case (Some x)
      then show ?thesis
        using p \<open>row_number r = Some n\<close> True grouped_known_item [OF g \<open>row_number r = Some n\<close> True]
        by (cases x) (simp_all add: process_row_alt)
    qed
  next
    case False
    then obtain ord where no: "new_order B n r = Inr ord"
      using p Some by (cases "new_order B n r") (simp_all add: process_row_alt)
    show ?thesis
    proof (cases "row_item B r")
      case None
      then show ?thesis
        using p Some False no grouped_new [OF g Some False no] by (simp add: process_row_alt)
    next
      case (Some x)
      then show ?thesis
        using p \<open>row_number r = Some n\<close> False no
          grouped_new_item [OF g \<open>row_number r = Some n\<close> False no]
        by (cases x) (simp_all add: process_row_alt)
    qed
  qed
qed

lemma grouped_group_rows:
  "group_rows B [] rows = Inr res \<Longrightarrow> grouped B rows res"
proof (induction rows arbitrary: res rule: rev_induct)
  case Nil
  then show ?case by (simp add: grouped_def first_seen_def order_numbers_def List.map_filter_def)
next
  case (snoc r rows)
  then show ?case
    by (auto simp: group_rows_snoc split: sum.splits intro: grouped_step)
qed

subsection \<open>Grouping rows into orders\<close>

lemma ex_parse: "parse_shopify_csv ex_builtins ex_rows = Inr ex_orders"
  by (simp add: parse_shopify_csv_def ex_rows_def ex_orders_def process_row_def row_get_def mk_row_def
     new_order_def new_item_def float_or_0_def int_or_1_def parse_created_at_def
     parse_note_attributes_def match_comuna_def match_fecha_def startswith_def py_strip_def re_space_def
     ex_builtins_def ex_float_def ex_int_def
        days_in_month_def all_digits_def re_digit_def digit_of_def py_or_def Let_def)

lemma find_rows_of:
  "rows_of n rows \<noteq> [] \<Longrightarrow> find (\<lambda>r. row_number r = Some n) rows = Some (hd (rows_of n rows))"
  by (induction rows) (auto simp: rows_of_def)

lemma new_order_fields:
  assumes "new_order B n first = Inr (ord\<lparr>items := []\<rparr>)"
  shows "order_number ord = n \<and>
     email ord = row_get first ''Email'' (Some []) \<and>
     comuna ord = fst (parse_note_attributes (row_get first ''Note Attributes'' (Some []))) \<and>
     fecha_entrega ord = snd (parse_note_attributes (row_get first ''Note Attributes'' (Some []))) \<and>
     nombre_cliente ord = py_or (row_get first ''Shipping Name'' (Some []))
                                (row_get first ''Billing Name'' (Some [])) \<and>
     direccion ord = row_get first ''Shipping Address1'' (Some []) \<and>
     telefono ord = py_or (row_get first ''Phone'' (Some [])) (row_get first ''Shipping Phone'' (Some [])) \<and>
     float_or_0 B (row_get first ''Total'' None) = Inr (total ord) \<and>
     created_at ord = parse_created_at B first"
proof (cases "float_or_0 B (row_get first ''Total'' None)")
  case (Inl e)
  then show ?thesis using assms by (simp add: new_order_def Let_def)
next
  case (Inr t)
  let ?o = "\<lparr> order_number = n, email = row_get first ''Email'' (Some []),
     comuna = fst (parse_note_attributes (row_get first ''Note Attributes'' (Some []))),
     fecha_entrega = snd (parse_note_attributes (row_get first ''Note Attributes'' (Some []))),
     nombre_cliente = py_or (row_get first ''Shipping Name'' (Some []))
                                (row_get first ''Billing Name'' (Some [])),
     direccion = row_get first ''Shipping Address1'' (Some []),
     telefono = py_or (row_get first ''Phone'' (Some [])) (row_get first ''Shipping Phone'' (Some [])),
     total = t, created_at = parse_created_at B first, items = [] \<rparr>"
  have eq: "ord\<lparr>items := []\<rparr> = ?o"
    using assms Inr by (simp add: new_order_def Let_def)
  have "order_number (ord\<lparr>items := []\<rparr>) = order_number ?o" "email (ord\<lparr>items := []\<rparr>) = email ?o"
    "comuna (ord\<lparr>items := []\<rparr>) = comuna ?o" "fecha_entrega (ord\<lparr>items := []\<rparr>) = fecha_entrega ?o"
    "nombre_cliente (ord\<lparr>items := []\<rparr>) = nombre_cliente ?o" "direccion (ord\<lparr>items := []\<rparr>) = direccion ?o"
    "telefono (ord\<lparr>items := []\<rparr>) = telefono ?o" "total (ord\<lparr>items := []\<rparr>) = total ?o"
    "created_at (ord\<lparr>items := []\<rparr>) = created_at ?o"
    by (simp_all only: eq)
  then show ?thesis using Inr by simp
qed

lemma parse_entries:
  assumes "parse_shopify_csv B rows = Inr orders"
  shows "map order_number orders = first_seen (order_numbers rows)"
    and "ord \<in> set orders \<Longrightarrow>
           rows_of (order_number ord) rows \<noteq> [] \<and>
           new_order B (order_number ord) (hd (rows_of (order_number ord) rows)) = Inr (ord\<lparr>items := []\<rparr>) \<and>
           map Inr (items ord) = List.map_filter (row_item B) (rows_of (order_number ord) rows)"
proof -
  from assms obtain res where res: "group_rows B [] rows = Inr res" and orders: "orders = map snd res"
    by (auto simp: parse_shopify_csv_def split: sum.splits)
  have g: "grouped B rows res" using res by (rule grouped_group_rows)
  have key: "order_number ord = n" if "(n, ord) \<in> set res" for n ord
    using grouped_entry [OF g that] new_order_fields by blast
  then have "map order_number orders = map fst res"
    unfolding orders by (induction res) auto
  then show "map order_number orders = first_seen (order_numbers rows)"
    using grouped_keys [OF g] by simp
  assume "ord \<in> set orders"
  then obtain n where e: "(n, ord) \<in> set res" unfolding orders by auto
  have n: "order_number ord = n" using key [OF e] .
  have "n \<in> set (map fst res)" using e by (metis set_map image_eqI fst_conv)
  then have "n \<in> set (order_numbers rows)" using grouped_keys [OF g] by simp
  then have "rows_of n rows \<noteq> []" by (simp add: rows_of_empty_iff)
  then show "rows_of (order_number ord) rows \<noteq> [] \<and>
           new_order B (order_number ord) (hd (rows_of (order_number ord) rows)) = Inr (ord\<lparr>items := []\<rparr>) \<and>
           map Inr (items ord) = List.map_filter (row_item B) (rows_of (order_number ord) rows)"
    using grouped_entry [OF g e] n by simp
qed

text \<open>
  Claim C7. When the grouper returns, the candidate orders are the distinct order numbers
  of the rows in first-seen order. The scalar fields of each order (email, commune,
  delivery date, customer name, address, phone, total, creation timestamp) are computed
  from the first row that carries its order number and from no other row; every row
  with that number, the first and the later ones, contributes its line item and nothing
  else.
\<close>

theorem first_row_fixes_scalar_fields:
  assumes "parse_shopify_csv B rows = Inr orders"
  shows "map order_number orders = first_seen (order_numbers rows) \<and>
    (\<forall>ord \<in> set orders. \<exists>first.
       find (\<lambda>r. row_number r = Some (order_number ord)) rows = Some first \<and>
       email ord = row_get first ''Email'' (Some []) \<and>
       comuna ord = fst (parse_note_attributes (row_get first ''Note Attributes'' (Some []))) \<and>
       fecha_entrega ord = snd (parse_note_attributes (row_get first ''Note Attributes'' (Some []))) \<and>
       nombre_cliente ord = py_or (row_get first ''Shipping Name'' (Some []))
                                  (row_get first ''Billing Name'' (Some [])) \<and>
       direccion ord = row_get first ''Shipping Address1'' (Some []) \<and>
       telefono ord = py_or (row_get first ''Phone'' (Some []))
                            (row_get first ''Shipping Phone'' (Some [])) \<and>
       float_or_0 B (row_get first ''Total'' None) = Inr (total ord) \<and>
       created_at ord = parse_created_at B first \<and>
       map Inr (items ord) = List.map_filter (row_item B) (rows_of (order_number ord) rows))"
proof (intro conjI ballI)
  show "map order_number orders = first_seen (order_numbers rows)"
    using parse_entries(1) [OF assms] .
  fix ord assume "ord \<in> set orders"
  from parse_entries(2) [OF assms this]
  have ne: "rows_of (order_number ord) rows \<noteq> []"
    and no: "new_order B (order_number ord) (hd (rows_of (order_number ord) rows)) = Inr (ord\<lparr>items := []\<rparr>)"
    and it: "map Inr (items ord) = List.map_filter (row_item B) (rows_of (order_number ord) rows)"
    by simp_all
  show "\<exists>first.
       find (\<lambda>r. row_number r = Some (order_number ord)) rows = Some first \<and>
       email ord = row_get first ''Email'' (Some []) \<and>
       comuna ord = fst (parse_note_attributes (row_get first ''Note Attributes'' (Some []))) \<and>
       fecha_entrega ord = snd (parse_note_attributes (row_get first ''Note Attributes'' (Some []))) \<and>
       nombre_cliente ord = py_or (row_get first ''Shipping Name'' (Some []))
                                  (row_get first ''Billing Name'' (Some [])) \<and>
       direccion ord = row_get first ''Shipping Address1'' (Some []) \<and>
       telefono ord = py_or (row_get first ''Phone'' (Some []))
                            (row_get first ''Shipping Phone'' (Some [])) \<and>
       float_or_0 B (row_get first ''Total'' None) = Inr (total ord) \<and>
       created_at ord = parse_created_at B first \<and>
       map Inr (items ord) = List.map_filter (row_item B) (rows_of (order_number ord) rows)"
    using find_rows_of [OF ne] new_order_fields [OF no] it
    by (intro exI [of _ "hd (rows_of (order_number ord) rows)"]) simp
qed

theorem first_row_fixes_scalar_fields_witness:
  "parse_shopify_csv ex_builtins ex_rows = Inr ex_orders \<and>
   map order_number ex_orders = first_seen (order_numbers ex_rows) \<and>
   map email ex_orders = [Some ''ana@vega.cl'', Some ''luis@vega.cl''] \<and>
   map total ex_orders = [1500, 0] \<and>
   map (map producto \<circ> items) ex_orders = [[''Manzana'', ''Pera''], [''Leche'']]"
  using ex_parse first_row_fixes_scalar_fields [OF ex_parse]
  by (simp add: ex_orders_def)

subsection \<open>Numeric fields\<close>

lemmas ex_eval = parse_shopify_csv_def process_row_def row_get_def mk_row_def
     new_order_def new_item_def float_or_0_def int_or_1_def parse_created_at_def
     parse_note_attributes_def match_comuna_def match_fecha_def startswith_def py_strip_def re_space_def
     ex_builtins_def ex_float_def ex_int_def
     days_in_month_def all_digits_def re_digit_def digit_of_def py_or_def Let_def

lemma float_or_0_cases:
  "float_or_0 B v = Inr t \<Longrightarrow>
     (case v of None \<Rightarrow> t = py_float0 B
      | Some s \<Rightarrow> if s = [] then t = py_float0 B else py_float B s = Inr t)"
  by (auto simp: float_or_0_def split: option.splits if_splits)

lemma int_or_1_cases:
  "int_or_1 B v = Inr q \<Longrightarrow>
     (case v of None \<Rightarrow> q = 1
      | Some s \<Rightarrow> if s = [] then q = 1 else py_int B s = Inr q)"
  by (auto simp: int_or_1_def split: option.splits if_splits)

lemma new_item_fields:
  "new_item B name r = Inr it \<Longrightarrow>
     producto it = name \<and>
     int_or_1 B (row_get r ''Lineitem quantity'' None) = Inr (cantidad it) \<and>
     float_or_0 B (row_get r ''Lineitem price'' None) = Inr (precio it) \<and>
     sku it = row_get r ''Lineitem sku'' (Some [])"
  by (auto simp: new_item_def split: sum.splits)

lemma row_item_None_iff: "row_item B r = None \<longleftrightarrow> \<not> truthy (row_get r ''Lineitem name'' None)"
  by (auto simp: row_item_def split: option.splits)

lemma row_item_Some:
  "row_item B r = Some x \<Longrightarrow>
     \<exists>name. row_get r ''Lineitem name'' None = Some name \<and> name \<noteq> [] \<and> x = new_item B name r"
  by (auto simp: row_item_def split: option.splits if_splits)

lemma items_rows:
  "map Inr its = List.map_filter (row_item B) rs \<Longrightarrow>
   list_all2 (\<lambda>it r. \<exists>name. row_get r ''Lineitem name'' None = Some name \<and> name \<noteq> [] \<and>
                       new_item B name r = Inr it)
     its (filter (\<lambda>r. truthy (row_get r ''Lineitem name'' None)) rs)"
proof (induction rs arbitrary: its)
  case Nil
  then show ?case by (simp add: List.map_filter_def)
next
  case (Cons r rs)
  show ?case
  proof (cases "row_item B r")
    case None
    then have "map Inr its = List.map_filter (row_item B) rs"
      using Cons.prems by (simp add: List.map_filter_def)
    then show ?thesis using Cons.IH None by (simp add: row_item_None_iff)
  next
    case (Some x)
    then have t: "truthy (row_get r ''Lineitem name'' None)"
      using row_item_None_iff [of B r] by simp
    from Some Cons.prems have "map Inr its = x # List.map_filter (row_item B) rs"
      by (simp add: List.map_filter_def)
    then obtain it its' where its: "its = it # its'" and x: "x = Inr it"
      and rest: "map Inr its' = List.map_filter (row_item B) rs"
      by (cases its) auto
    from row_item_Some [OF Some] x
    have "\<exists>name. row_get r ''Lineitem name'' None = Some name \<and> name \<noteq> [] \<and> new_item B name r = Inr it"
      by auto
    then show ?thesis using Cons.IH [OF rest] its t by simp
  qed
qed

lemma find_split:
  "find P xs = Some x \<Longrightarrow> \<exists>pre post. xs = pre @ x # post \<and> P x \<and> (\<forall>y \<in> set pre. \<not> P y)"
proof (induction xs)
  case Nil then show ?case by simp
next
  case (Cons a xs)
  show ?case
  proof (cases "P a")
    case True
    then have "a = x" using Cons.prems by simp
    then show ?thesis using True by (intro exI [of _ "[]"] exI [of _ xs]) simp
  next
    case False
    then have "find P xs = Some x" using Cons.prems by simp
    from Cons.IH [OF this] obtain pre post where "xs = pre @ x # post" "P x" "\<forall>y \<in> set pre. \<not> P y"
      by blast
    then show ?thesis using False by (intro exI [of _ "a # pre"] exI [of _ post]) simp
  qed
qed

lemma order_numbers_set: "n \<in> set (order_numbers rows) \<longleftrightarrow> (\<exists>r \<in> set rows. row_number r = Some n)"
  by (auto simp: order_numbers_def List.map_filter_def image_iff)

lemma group_rows_first_total_fails:
  assumes f: "find (\<lambda>r. row_number r = Some n) rows = Some first"
    and bad: "isl (float_or_0 B (row_get first ''Total'' None))"
  shows "\<exists>e. group_rows B [] rows = Inl e"
proof -
  from find_split [OF f] obtain pre post where rows: "rows = pre @ first # post"
    and rn: "row_number first = Some n" and pre: "\<forall>y \<in> set pre. row_number y \<noteq> Some n"
    by blast
  show ?thesis
  proof (cases "group_rows B [] pre")
    case (Inl e)
    then show ?thesis by (simp add: rows group_rows_append)
  next
    case (Inr acc)
    have "n \<notin> set (order_numbers pre)" using pre by (simp add: order_numbers_set)
    then have notin: "n \<notin> set (map fst acc)"
      using grouped_keys [OF grouped_group_rows [OF Inr]] by simp
    from bad obtain e where "float_or_0 B (row_get first ''Total'' None) = Inl e"
      by (cases "float_or_0 B (row_get first ''Total'' None)") auto
    then have "new_order B n first = Inl e" by (simp add: new_order_def Let_def)
    then have "process_row B acc first = Inl e"
      using rn notin by (simp add: process_row_alt)
    then show ?thesis using Inr by (simp add: rows group_rows_append)
  qed
qed







text \<open>
  Claim C3 states that the total of a candidate order is 0 when the \<^verbatim>\<open>Total\<close> field
  cannot be parsed as a number. The grouper has no such default: \<^verbatim>\<open>float\<close> raises and
  the exception leaves \<^verbatim>\<open>parse_shopify_csv\<close>, so no candidate order is returned.
\<close>

theorem unparseable_total_raises_counterexample:
  "ex_float ''abc'' = Inl ValueError \<and>
   parse_shopify_csv ex_builtins ex_rows_bad_total = Inl ValueError"
  by (simp add: ex_rows_bad_total_def ex_eval)

text \<open>
  Claim C3, amended. When the grouper returns, the total of each candidate order is
  \<^verbatim>\<open>float\<close> of the \<^verbatim>\<open>Total\<close> field of the first row of the order when that field is
  not empty, and \<^verbatim>\<open>float(0)\<close> when it is missing or empty; each item has quantity 1
  when the quantity field is missing or empty and \<^verbatim>\<open>int\<close> of the field otherwise, and
  price \<^verbatim>\<open>float(0)\<close> when the price field is missing or empty and \<^verbatim>\<open>float\<close> of the
  field otherwise. When the \<^verbatim>\<open>Total\<close> field of the first row of an order is not empty
  and \<^verbatim>\<open>float\<close> rejects it, the grouper raises.
\<close>

theorem numeric_fields_default_or_raise:
  "(parse_shopify_csv B rows = Inr orders \<longrightarrow>
     (\<forall>ord \<in> set orders. \<exists>first.
        find (\<lambda>r. row_number r = Some (order_number ord)) rows = Some first \<and>
        (case row_get first ''Total'' None of
           None \<Rightarrow> total ord = py_float0 B
         | Some s \<Rightarrow> if s = [] then total ord = py_float0 B
                     else py_float B s = Inr (total ord)) \<and>
        list_all2
          (\<lambda>it r.
             (case row_get r ''Lineitem quantity'' None of
                None \<Rightarrow> cantidad it = 1
              | Some s \<Rightarrow> if s = [] then cantidad it = 1
                          else py_int B s = Inr (cantidad it)) \<and>
             (case row_get r ''Lineitem price'' None of
                None \<Rightarrow> precio it = py_float0 B
              | Some s \<Rightarrow> if s = [] then precio it = py_float0 B
                          else py_float B s = Inr (precio it)))
          (items ord)
          (filter (\<lambda>r. truthy (row_get r ''Lineitem name'' None))
             (rows_of (order_number ord) rows)))) \<and>
   (\<forall>n first s e.
      find (\<lambda>r. row_number r = Some n) rows = Some first \<and>
      row_get first ''Total'' None = Some s \<and> s \<noteq> [] \<and> py_float B s = Inl e
      \<longrightarrow> (\<exists>e'. parse_shopify_csv B rows = Inl e'))"
proof (intro conjI impI ballI allI)
  fix ord assume p: "parse_shopify_csv B rows = Inr orders" and o: "ord \<in> set orders"
  let ?rs = "rows_of (order_number ord) rows"
  from parse_entries(2) [OF p o]
  have ne: "?rs \<noteq> []"
    and no: "new_order B (order_number ord) (hd ?rs) = Inr (ord\<lparr>items := []\<rparr>)"
    and it: "map Inr (items ord) = List.map_filter (row_item B) ?rs"
    by simp_all
  have tot: "float_or_0 B (row_get (hd ?rs) ''Total'' None) = Inr (total ord)"
    using new_order_fields [OF no] by simp
  have "list_all2 (\<lambda>it r. \<exists>name. row_get r ''Lineitem name'' None = Some name \<and> name \<noteq> [] \<and>
                       new_item B name r = Inr it)
     (items ord) (filter (\<lambda>r. truthy (row_get r ''Lineitem name'' None)) ?rs)"
    using items_rows [OF it] .
  then have its: "list_all2
          (\<lambda>it r.
             (case row_get r ''Lineitem quantity'' None of
                None \<Rightarrow> cantidad it = 1
              | Some s \<Rightarrow> if s = [] then cantidad it = 1
                          else py_int B s = Inr (cantidad it)) \<and>
             (case row_get r ''Lineitem price'' None of
                None \<Rightarrow> precio it = py_float0 B
              | Some s \<Rightarrow> if s = [] then precio it = py_float0 B
                          else py_float B s = Inr (precio it)))
          (items ord) (filter (\<lambda>r. truthy (row_get r ''Lineitem name'' None)) ?rs)"
  proof (rule list_all2_mono)
    fix it r
    assume "\<exists>name. row_get r ''Lineitem name'' None = Some name \<and> name \<noteq> [] \<and>
                       new_item B name r = Inr it"
    then obtain name where "new_item B name r = Inr it" by blast
    from new_item_fields [OF this]
    have q: "int_or_1 B (row_get r ''Lineitem quantity'' None) = Inr (cantidad it)"
      and p: "float_or_0 B (row_get r ''Lineitem price'' None) = Inr (precio it)" by simp_all
    show "(case row_get r ''Lineitem quantity'' None of
                None \<Rightarrow> cantidad it = 1
              | Some s \<Rightarrow> if s = [] then cantidad it = 1
                          else py_int B s = Inr (cantidad it)) \<and>
             (case row_get r ''Lineitem price'' None of
                None \<Rightarrow> precio it = py_float0 B
              | Some s \<Rightarrow> if s = [] then precio it = py_float0 B
                          else py_float B s = Inr (precio it))"
      using int_or_1_cases [OF q] float_or_0_cases [OF p] by simp
  qed
  show "\<exists>first.
        find (\<lambda>r. row_number r = Some (order_number ord)) rows = Some first \<and>
        (case row_get first ''Total'' None of
           None \<Rightarrow> total ord = py_float0 B
         | Some s \<Rightarrow> if s = [] then total ord = py_float0 B
                     else py_float B s = Inr (total ord)) \<and>
        list_all2
          (\<lambda>it r.
             (case row_get r ''Lineitem quantity'' None of
                None \<Rightarrow> cantidad it = 1
              | Some s \<Rightarrow> if s = [] then cantidad it = 1
                          else py_int B s = Inr (cantidad it)) \<and>
             (case row_get r ''Lineitem price'' None of
                None \<Rightarrow> precio it = py_float0 B
              | Some s \<Rightarrow> if s = [] then precio it = py_float0 B
                          else py_float B s = Inr (precio it)))
          (items ord)
          (filter (\<lambda>r. truthy (row_get r ''Lineitem name'' None)) ?rs)"
    using find_rows_of [OF ne] float_or_0_cases [OF tot] its
    by (intro exI [of _ "hd ?rs"]) simp
next
  fix n first s e
  assume a: "find (\<lambda>r. row_number r = Some n) rows = Some first \<and>
      row_get first ''Total'' None = Some s \<and> s \<noteq> [] \<and> py_float B s = Inl e"
  then have "isl (float_or_0 B (row_get first ''Total'' None))"
    by (simp add: float_or_0_def)
  from group_rows_first_total_fails [OF _ this] a
  obtain e' where "group_rows B [] rows = Inl e'" by blast
  then show "\<exists>e'. parse_shopify_csv B rows = Inl e'"
    by (simp add: parse_shopify_csv_def)
qed


theorem numeric_fields_default_or_raise_witness:
  "parse_shopify_csv ex_builtins ex_rows = Inr ex_orders \<and>
   map total ex_orders = [1500, 0] \<and>
   map (map cantidad \<circ> items) ex_orders = [[3, 1], [1]] \<and>
   map (map precio \<circ> items) ex_orders = [[500, 0], [0]] \<and>
   find (\<lambda>r. row_number r = Some ''#3001'') ex_rows_bad_total = Some (hd ex_rows_bad_total) \<and>
   row_get (hd ex_rows_bad_total) ''Total'' None = Some ''abc'' \<and>
   py_float ex_builtins ''abc'' = Inl ValueError \<and>
   (\<exists>e'. parse_shopify_csv ex_builtins ex_rows_bad_total = Inl e')"
proof -
  have h: "find (\<lambda>r. row_number r = Some ''#3001'') ex_rows_bad_total = Some (hd ex_rows_bad_total) \<and>
      row_get (hd ex_rows_bad_total) ''Total'' None = Some ''abc'' \<and> ''abc'' \<noteq> [] \<and>
      py_float ex_builtins ''abc'' = Inl ValueError"
    by (simp add: ex_rows_bad_total_def row_number_def ex_eval)
  note raises = numeric_fields_default_or_raise [of ex_builtins ex_rows_bad_total,
      THEN conjunct2, THEN spec, THEN spec, THEN spec, THEN spec, THEN mp, OF h]
  note fields = numeric_fields_default_or_raise [of ex_builtins ex_rows ex_orders,
      THEN conjunct1, THEN mp, OF ex_parse]
  have "ex_orders \<noteq> []" using fields by (simp add: ex_orders_def)
  then show ?thesis
    using ex_parse h raises by (simp add: ex_orders_def)
qed

subsection \<open>The creation timestamp\<close>

lemma row_get_upd_other: "k' \<noteq> k \<Longrightarrow> row_get (row(k := v)) k' d = row_get row k' d"
  by (simp add: row_get_def)

lemma append_item_clear:
  "append_item n it (map (apsnd (\<lambda>ord. ord\<lparr>created_at := None\<rparr>)) os)
     = map (apsnd (\<lambda>ord. ord\<lparr>created_at := None\<rparr>)) (append_item n it os)"
  by (induction os) auto

lemma keys_clear:
  "map fst (map (apsnd (\<lambda>ord. ord\<lparr>created_at := None\<rparr>)) os) = map fst os"
  by (induction os) auto

lemma process_row_transfer:
  assumes rn: "row_number r' = row_number r"
    and ri: "row_item B' r' = row_item B r"
    and no: "\<And>n. new_order B' n r' = map_sum id (\<lambda>ord. ord\<lparr>created_at := None\<rparr>) (new_order B n r)"
  shows "process_row B' (map (apsnd (\<lambda>ord. ord\<lparr>created_at := None\<rparr>)) os) r'
         = map_sum id (map (apsnd (\<lambda>ord. ord\<lparr>created_at := None\<rparr>))) (process_row B os r)"
proof (cases "row_number r")
  case None
  then show ?thesis by (simp add: process_row_alt rn)
next
  case (Some n)
  show ?thesis
  proof (cases "n \<in> set (map fst os)")
    case True
    then show ?thesis
      unfolding process_row_alt rn ri keys_clear Some
      by (simp add: append_item_clear split: option.splits sum.splits)
  next
    case False
    show ?thesis
    proof (cases "new_order B n r")
      case (Inl e)
      then show ?thesis
        unfolding process_row_alt rn ri keys_clear Some no
        using False by simp
    next
      case (Inr ord)
      have "append_item n it (map (apsnd (\<lambda>ord. ord\<lparr>created_at := None\<rparr>)) os @ [(n, ord\<lparr>created_at := None\<rparr>)])
          = map (apsnd (\<lambda>ord. ord\<lparr>created_at := None\<rparr>)) (append_item n it (os @ [(n, ord)]))" for it
        using append_item_clear [of n it "os @ [(n, ord)]"] by simp
      then show ?thesis
        unfolding process_row_alt rn ri keys_clear Some no
        using False Inr by (simp split: option.splits sum.splits)
    qed
  qed
qed

lemma group_rows_transfer:
  assumes rn: "\<And>r. row_number (g r) = row_number r"
    and ri: "\<And>r. row_item B' (g r) = row_item B r"
    and no: "\<And>n r. new_order B' n (g r) = map_sum id (\<lambda>ord. ord\<lparr>created_at := None\<rparr>) (new_order B n r)"
  shows "group_rows B' (map (apsnd (\<lambda>ord. ord\<lparr>created_at := None\<rparr>)) os) (map g rows)
         = map_sum id (map (apsnd (\<lambda>ord. ord\<lparr>created_at := None\<rparr>))) (group_rows B os rows)"
proof (induction rows arbitrary: os)
  case Nil
  then show ?case by simp
next
  case (Cons r rows)
  show ?case
    by (cases "process_row B os r")
       (simp_all add: process_row_transfer [OF rn ri no] Cons.IH)
qed

lemma parse_transfer:
  assumes rn: "\<And>r. row_number (g r) = row_number r"
    and ri: "\<And>r. row_item B' (g r) = row_item B r"
    and no: "\<And>n r. new_order B' n (g r) = map_sum id (\<lambda>ord. ord\<lparr>created_at := None\<rparr>) (new_order B n r)"
  shows "parse_shopify_csv B' (map g rows)
         = map_sum id (map (\<lambda>ord. ord\<lparr>created_at := None\<rparr>)) (parse_shopify_csv B rows)"
proof -
  have "group_rows B' [] (map g rows)
         = map_sum id (map (apsnd (\<lambda>ord. ord\<lparr>created_at := None\<rparr>))) (group_rows B [] rows)"
    using group_rows_transfer [OF rn ri no, of "[]" rows] by simp
  then show ?thesis
    by (cases "group_rows B [] rows") (simp_all add: parse_shopify_csv_def comp_def)
qed

lemma float_or_0_strptime: "float_or_0 (B\<lparr>strptime := f\<rparr>) v = float_or_0 B v"
  by (simp add: float_or_0_def split: option.splits)

lemma int_or_1_strptime: "int_or_1 (B\<lparr>strptime := f\<rparr>) v = int_or_1 B v"
  by (simp add: int_or_1_def split: option.splits)

lemma new_item_strptime: "new_item (B\<lparr>strptime := f\<rparr>) name r = new_item B name r"
  by (simp add: new_item_def int_or_1_strptime float_or_0_strptime split: sum.splits)

lemma row_item_strptime: "row_item (B\<lparr>strptime := f\<rparr>) r = row_item B r"
  by (simp add: row_item_def new_item_strptime split: option.splits)

lemma new_order_strptime_fails:
  "new_order (B\<lparr>strptime := (\<lambda>_. Inl e)\<rparr>) n r
     = map_sum id (\<lambda>ord. ord\<lparr>created_at := None\<rparr>) (new_order B n r)"
  by (simp add: new_order_def parse_created_at_def float_or_0_strptime Let_def
           split: option.splits sum.splits)

lemma row_number_no_created: "row_number (r(''Created at'' := None)) = row_number r"
  by (simp add: row_number_def row_get_upd_other)

lemma new_item_no_created: "new_item B name (r(''Created at'' := None)) = new_item B name r"
  by (simp add: new_item_def row_get_upd_other cong: sum.case_cong)

lemma row_item_no_created: "row_item B (r(''Created at'' := None)) = row_item B r"
  by (simp add: row_item_def new_item_no_created row_get_upd_other split: option.splits)

lemma new_order_no_created:
  "new_order B n (r(''Created at'' := None))
     = map_sum id (\<lambda>ord. ord\<lparr>created_at := None\<rparr>) (new_order B n r)"
  by (simp add: new_order_def parse_created_at_def Let_def row_get_upd_other
           split: option.splits sum.splits) (simp add: row_get_def)

text \<open>
  Claim C9. Parsing the creation timestamp never raises. If \<^verbatim>\<open>strptime\<close> raises on
  every text, the grouper returns what it returns otherwise (the same error of a numeric
  field, or the same orders with the same items), only with every timestamp unset; and
  the same holds when the column \<^verbatim>\<open>Created at\<close> is missing from every row.
\<close>

theorem created_at_never_raises:
  "parse_shopify_csv (B\<lparr>strptime := (\<lambda>_. Inl e)\<rparr>) rows
     = map_sum id (map (\<lambda>ord. ord\<lparr>created_at := None\<rparr>)) (parse_shopify_csv B rows) \<and>
   parse_shopify_csv B (map (\<lambda>r. r(''Created at'' := None)) rows)
     = map_sum id (map (\<lambda>ord. ord\<lparr>created_at := None\<rparr>)) (parse_shopify_csv B rows)"
proof
  show "parse_shopify_csv (B\<lparr>strptime := (\<lambda>_. Inl e)\<rparr>) rows
     = map_sum id (map (\<lambda>ord. ord\<lparr>created_at := None\<rparr>)) (parse_shopify_csv B rows)"
    using parse_transfer [of "\<lambda>r. r" "B\<lparr>strptime := (\<lambda>_. Inl e)\<rparr>" B rows]
    by (simp add: row_item_strptime new_order_strptime_fails)
  show "parse_shopify_csv B (map (\<lambda>r. r(''Created at'' := None)) rows)
     = map_sum id (map (\<lambda>ord. ord\<lparr>created_at := None\<rparr>)) (parse_shopify_csv B rows)"
    by (rule parse_transfer) (rule row_number_no_created row_item_no_created new_order_no_created)+
qed

lemma parse_created_at_example:
  "parse_created_at ex_builtins (mk_row [(''Created at'', ''2024-05-10 14:30:00 -0400'')])
     = Some (2024, 5, 10, 14, 30, 0) \<and>
   parse_created_at ex_builtins (mk_row [(''Created at'', ''10/05/2024'')]) = None"
  by (simp add: parse_created_at_def row_get_def mk_row_def ex_builtins_def startswith_def
        days_in_month_def all_digits_def re_digit_def digit_of_def)

subsection \<open>Malformed records in an upload\<close>







subsection \<open>The deduplication gate\<close>

















subsection \<open>Orders without delivery date\<close>
















subsection \<open>The structure of the shopping list\<close>

lemma add_to_categoria_keys:
  "map fst (add_to_categoria c x d) = (if c \<in> set (map fst d) then map fst d else map fst d @ [c])"
proof (induction d)
  case Nil
  show ?case by simp
next
  case (Cons a d)
  obtain k v where a: "a = (k, v)" by (cases a)
  show ?case
  proof (cases "k = c")
    case True
    then show ?thesis using a by simp
  next
    case False
    then have "c \<in> set (map fst (a # d)) \<longleftrightarrow> c \<in> set (map fst d)" using a by auto
    then show ?thesis using Cons.IH a False by simp
  qed
qed

lemma add_to_categoria_new:
  "c \<notin> set (map fst d) \<Longrightarrow> add_to_categoria c x d = d @ [(c, [x])]"
proof (induction d)
  case Nil
  show ?case by simp
next
  case (Cons a d)
  obtain k v where a: "a = (k, v)" by (cases a)
  from Cons.prems a have "k \<noteq> c" "c \<notin> set (map fst d)" by auto
  then show ?case using Cons.IH a by simp
qed

lemma add_to_categoria_old:
  "distinct (map fst d) \<Longrightarrow> c \<in> set (map fst d) \<Longrightarrow>
   add_to_categoria c x d = map (\<lambda>(k, v). if k = c then (k, v @ [x]) else (k, v)) d"
proof (induction d)
  case Nil
  then show ?case by simp
next
  case (Cons a d)
  obtain k v where a: "a = (k, v)" by (cases a)
  show ?case
  proof (cases "k = c")
    case True
    then have "c \<notin> fst ` set d" using Cons.prems(1) a by simp
    then have "map (\<lambda>(k, v). if k = c then (k, v @ [x]) else (k, v)) d = d"
      by (induction d) (auto simp: image_iff)
    then show ?thesis using a True by simp
  next
    case False
    then show ?thesis using Cons a by auto
  qed
qed

lemma entries_simps [simp]:
  "entries [] = []" "entries ((k, v) # d) = v @ entries d"
  by (simp_all add: entries_def)

lemma entries_add_to_categoria_set:
  "set (entries (add_to_categoria c x d)) = insert x (set (entries d))"
proof (induction d)
  case Nil
  show ?case by simp
next
  case (Cons a d)
  obtain k v where a: "a = (k, v)" by (cases a)
  show ?case using Cons.IH a by (cases "k = c") auto
qed

lemma entries_add_to_categoria_length:
  "length (entries (add_to_categoria c x d)) = Suc (length (entries d))"
proof (induction d)
  case Nil
  show ?case by simp
next
  case (Cons a d)
  obtain k v where a: "a = (k, v)" by (cases a)
  show ?case using Cons.IH a by (cases "k = c") auto
qed

lemma por_categoria_snoc:
  "por_categoria (its @ [r]) =
     add_to_categoria (r_categoria r) (r_producto r, r_cantidad_total r) (por_categoria its)"
  by (simp add: por_categoria_def)

lemma por_categoria_keys: "map fst (por_categoria its) = first_seen (map r_categoria its)"
proof (induction its rule: rev_induct)
  case Nil
  then show ?case by (simp add: por_categoria_def first_seen_def)
next
  case (snoc r its)
  then show ?case
    by (simp add: por_categoria_snoc add_to_categoria_keys first_seen_snoc)
qed

lemma por_categoria_entries_set:
  "set (entries (por_categoria its)) = (\<lambda>r. (r_producto r, r_cantidad_total r)) ` set its"
proof (induction its rule: rev_induct)
  case Nil
  show ?case by (simp add: por_categoria_def)
next
  case (snoc r its)
  then show ?case
    by (simp add: por_categoria_snoc entries_add_to_categoria_set entries_add_to_categoria_length)
qed

lemma por_categoria_entries_length:
  "length (entries (por_categoria its)) = length its"
proof (induction its rule: rev_induct)
  case Nil
  show ?case by (simp add: por_categoria_def)
next
  case (snoc r its)
  then show ?case
    by (simp add: por_categoria_snoc entries_add_to_categoria_set entries_add_to_categoria_length)
qed

lemma por_categoria_entry:
  "(c, ps) \<in> set (por_categoria its) \<Longrightarrow>
     ps = map (\<lambda>r. (r_producto r, r_cantidad_total r)) (filter (\<lambda>r. r_categoria r = c) its) \<and>
     c \<in> r_categoria ` set its"
proof (induction its arbitrary: c ps rule: rev_induct)
  case Nil
  then show ?case by (simp add: por_categoria_def)
next
  case (snoc r its)
  let ?d = "por_categoria its"
  have dist: "distinct (map fst ?d)" by (simp add: por_categoria_keys)
  show ?case
  proof (cases "r_categoria r \<in> set (map fst ?d)")
    case True
    from snoc.prems obtain v where old: "(c, v) \<in> set ?d"
      and ps: "ps = (if c = r_categoria r then v @ [(r_producto r, r_cantidad_total r)] else v)"
      unfolding por_categoria_snoc add_to_categoria_old [OF dist True]
      by (auto split: if_splits)
    from snoc.IH [OF old] ps show ?thesis by auto
  next
    case False
    then have notin: "r_categoria r \<notin> r_categoria ` set its"
      by (simp add: por_categoria_keys)
    from snoc.prems consider (old) "(c, ps) \<in> set ?d"
      | (new) "c = r_categoria r" "ps = [(r_producto r, r_cantidad_total r)]"
      unfolding por_categoria_snoc add_to_categoria_new [OF False] by auto
    then show ?thesis
    proof cases
      case old
      from snoc.IH [OF old] have "c \<in> r_categoria ` set its" by simp
      then have "c \<noteq> r_categoria r" using notin by blast
      then show ?thesis using snoc.IH [OF old] by auto
    next
      case new
      have "\<forall>x \<in> set its. r_categoria x \<noteq> r_categoria r"
        using notin by (metis image_eqI)
      then have "filter (\<lambda>x. r_categoria x = r_categoria r) its = []"
        by (simp add: filter_empty_conv)
      then show ?thesis using new by simp
    qed
  qed
qed

lemma lista_rows_productos:
  "map r_producto (lista_rows st d)
     = remdups (map lp_producto (filter (in_scope st d) (lineas_pedido st)))"
  by (simp add: lista_rows_def Let_def comp_def)

lemma lista_rows_row:
  assumes "r \<in> set (lista_rows st d)"
  shows "r_cantidad_total r = sum_list (map lp_cantidad
            (filter (\<lambda>l. lp_producto l = r_producto r \<and> in_scope st d l) (lineas_pedido st)))"
    and "r_categoria r = (case categoria_of st (r_producto r) of
                            None \<Rightarrow> sin_categoria | Some c \<Rightarrow> c_nombre c)"
    and "r_categoria_orden r = (case categoria_of st (r_producto r) of
                                  None \<Rightarrow> 999 | Some c \<Rightarrow> c_orden c)"
  using assms by (auto simp: lista_rows_def Let_def conj_commute)

lemma find_distinct:
  "distinct (map f xs) \<Longrightarrow> x \<in> set xs \<Longrightarrow> find (\<lambda>y. f y = f x) xs = Some x"
  by (induction xs) (auto simp: image_iff)

lemma in_scope_pending_on:
  assumes "distinct (map p_id (pedidos st))"
  shows "in_scope st d l \<longleftrightarrow> pending_on st d l"
proof
  assume "in_scope st d l"
  then obtain p where f: "find (\<lambda>p. p_id p = lp_pedido_id l) (pedidos st) = Some p"
    and ok: "p_fecha_entrega p = Some d" "p_status p = pendiente"
    by (auto simp: in_scope_def split: option.splits)
  from f have "p \<in> set (pedidos st)" "p_id p = lp_pedido_id l"
    by (auto simp: find_Some_iff)
  then show "pending_on st d l" using ok by (auto simp: pending_on_def)
next
  assume "pending_on st d l"
  then obtain p where p: "p \<in> set (pedidos st)" "p_id p = lp_pedido_id l"
    "p_status p = pendiente" "p_fecha_entrega p = Some d"
    by (auto simp: pending_on_def)
  from find_distinct [OF assms p(1)] p(2)
  have "find (\<lambda>y. p_id y = lp_pedido_id l) (pedidos st) = Some p" by simp
  then show "in_scope st d l" using p by (simp add: in_scope_def)
qed

lemma lista_entries:
  "set (entries (get_lista_compras st d))
     = (\<lambda>r. (r_producto r, r_cantidad_total r)) ` set (lista_rows st d)"
  "length (entries (get_lista_compras st d)) = length (lista_rows st d)"
  by (simp_all add: get_lista_compras_def por_categoria_entries_set por_categoria_entries_length)

lemma lista_entries_total:
  assumes "(p, q) \<in> set (entries (get_lista_compras st d))"
  shows "q = sum_list (map lp_cantidad
            (filter (\<lambda>l. lp_producto l = p \<and> in_scope st d l) (lineas_pedido st)))"
  using assms lista_rows_row(1) [of _ st d] by (auto simp: lista_entries)

lemma lista_entries_productos:
  "set (map fst (entries (get_lista_compras st d)))
     = lp_producto ` {l \<in> set (lineas_pedido st). in_scope st d l}"
  "distinct (map fst (entries (get_lista_compras st d)))"
proof -
  have s: "set (map fst (entries (get_lista_compras st d))) = set (map r_producto (lista_rows st d))"
    by (simp add: lista_entries image_image)
  then show "set (map fst (entries (get_lista_compras st d)))
     = lp_producto ` {l \<in> set (lineas_pedido st). in_scope st d l}"
    unfolding lista_rows_productos by auto
  have d: "distinct (map r_producto (lista_rows st d))"
    unfolding lista_rows_productos by simp
  have "card (set (map fst (entries (get_lista_compras st d)))) = length (map r_producto (lista_rows st d))"
    unfolding s using d by (rule distinct_card)
  then have "card (set (map fst (entries (get_lista_compras st d))))
        = length (map fst (entries (get_lista_compras st d)))"
    by (simp add: lista_entries)
  then show "distinct (map fst (entries (get_lista_compras st d)))"
    by (rule card_distinct)
qed

subsection \<open>The totals of the shopping list\<close>

lemma ex_lista: "get_lista_compras ex_store ''2024-05-10'' =
   [(''Frutas'', [(''Manzana'', 4), (''Pera'', 2)]), (sin_categoria, [(''Leche'', 1)])]"
  by code_simp



subsection \<open>Deleting an order\<close>

lemma find_filter_other:
  "k \<noteq> pid \<Longrightarrow>
   find (\<lambda>p. p_id p = k) (filter (\<lambda>p. p_id p \<noteq> pid) ps) = find (\<lambda>p. p_id p = k) ps"
  by (induction ps) auto

lemma in_scope_eliminar:
  "lp_pedido_id l \<noteq> pid \<Longrightarrow>
   in_scope (fst (eliminar_pedido st pid)) d l \<longleftrightarrow> in_scope st d l"
  by (simp add: in_scope_def eliminar_pedido_def find_filter_other)

lemma scope_eliminar:
  "filter (\<lambda>l. P l \<and> in_scope (fst (eliminar_pedido st pid)) d l)
       (lineas_pedido (fst (eliminar_pedido st pid)))
     = filter (\<lambda>l. P l \<and> lp_pedido_id l \<noteq> pid \<and> in_scope st d l) (lineas_pedido st)"
proof -
  have "lineas_pedido (fst (eliminar_pedido st pid))
          = filter (\<lambda>l. lp_pedido_id l \<noteq> pid) (lineas_pedido st)"
    by (simp add: eliminar_pedido_def)
  then show ?thesis
    by (auto simp: in_scope_eliminar intro: filter_cong)
qed

lemma get_pedidos_eliminar:
  "get_pedidos (fst (eliminar_pedido st pid)) fecha status
     = filter (\<lambda>(p, ls). p_id p \<noteq> pid) (get_pedidos st fecha status)"
proof -
  let ?c = "\<lambda>p. (truthy fecha \<longrightarrow> p_fecha_entrega p = fecha) \<and>
                 (truthy status \<longrightarrow> Some (p_status p) = status)"
  let ?k = "\<lambda>p. (p_fecha_entrega p, p_order_number p)"
  let ?Q = "\<lambda>p. p_id p \<noteq> pid"
  let ?g = "\<lambda>p. (p, filter (\<lambda>l. lp_pedido_id l = p_id p) (lineas_pedido st))"
  let ?g' = "\<lambda>p. (p, filter (\<lambda>l. lp_pedido_id l = p_id p)
                       (filter (\<lambda>l. lp_pedido_id l \<noteq> pid) (lineas_pedido st)))"
  let ?Y = "sort_key ?k (filter ?c (pedidos st))"
  have "filter ?c (filter ?Q (pedidos st)) = filter ?Q (filter ?c (pedidos st))"
    by (simp add: conj_commute)
  then have sel: "sort_key ?k (filter ?c (filter ?Q (pedidos st))) = filter ?Q ?Y"
    by (simp add: filter_sort)
  have lines: "?g' p = ?g p" if "?Q p" for p :: "('a, 'b) pedido"
  proof -
    have "filter (\<lambda>l. lp_pedido_id l = p_id p) (filter (\<lambda>l. lp_pedido_id l \<noteq> pid) (lineas_pedido st))
            = filter (\<lambda>l. lp_pedido_id l = p_id p) (lineas_pedido st)"
      using that by (auto intro: filter_cong)
    then show ?thesis by simp
  qed
  have P: "pedidos (fst (eliminar_pedido st pid)) = filter ?Q (pedidos st)"
    and L: "lineas_pedido (fst (eliminar_pedido st pid))
              = filter (\<lambda>l. lp_pedido_id l \<noteq> pid) (lineas_pedido st)"
    by (simp_all add: eliminar_pedido_def)
  have "get_pedidos (fst (eliminar_pedido st pid)) fecha status = map ?g' (filter ?Q ?Y)"
    unfolding get_pedidos_def Let_def P L sel ..
  also have "\<dots> = map ?g (filter ?Q ?Y)"
  proof (rule map_cong [OF refl])
    fix p assume "p \<in> set (filter ?Q ?Y)"
    then have "?Q p" by simp
    then show "?g' p = ?g p" by (rule lines)
  qed
  also have "\<dots> = filter (\<lambda>(p, ls). p_id p \<noteq> pid) (map ?g ?Y)"
    by (simp add: filter_map comp_def)
  also have "\<dots> = filter (\<lambda>(p, ls). p_id p \<noteq> pid) (get_pedidos st fecha status)"
    by (simp add: get_pedidos_def Let_def)
  finally show ?thesis .
qed


lemma get_pedidos_lines:
  "(p, ls) \<in> set (get_pedidos st fecha status) \<Longrightarrow> set ls \<subseteq> set (lineas_pedido st)"
  by (auto simp: get_pedidos_def Let_def)

lemma ex_manifest:
  "picking_manifest ex_store ''2024-05-10'' =
     [(ex_pedido 1 ''#1001'' ''2024-05-10'' pendiente,
         [ex_linea 1 1 ''Manzana'' 3, ex_linea 2 1 ''Pera'' 2]),
      (ex_pedido 2 ''#1002'' ''2024-05-10'' pendiente,
         [ex_linea 3 2 ''Manzana'' 1, ex_linea 4 2 ''Leche'' 1])]"
  by code_simp

lemma ex_lista_eliminar:
  "get_lista_compras (fst (eliminar_pedido ex_store 2)) ''2024-05-10'' =
     [(''Frutas'', [(''Manzana'', 3), (''Pera'', 2)])]"
  by code_simp

text \<open>
  Claim C8. After deleting an order, no line of it and no row of it remain in the store.
  The picking manifest of every date is the former one without that order, and none of
  the listed lines belongs to it. In the shopping list of every date, the total of each
  product is the sum over the lines of the other orders that are pending on that date,
  and the products listed are the products of those lines: the deleted order and its
  items are excluded entirely. The ids of the orders are distinct, as the primary key
  of the table makes them.
\<close>

theorem eliminar_pedido_removes_order:
  assumes "distinct (map p_id (pedidos st))"
  shows "snd (eliminar_pedido st pid) = True \<and>
     (\<forall>l \<in> set (lineas_pedido (fst (eliminar_pedido st pid))). lp_pedido_id l \<noteq> pid) \<and>
     (\<forall>p \<in> set (pedidos (fst (eliminar_pedido st pid))). p_id p \<noteq> pid) \<and>
     (\<forall>d. picking_manifest (fst (eliminar_pedido st pid)) d
            = filter (\<lambda>(p, ls). p_id p \<noteq> pid) (picking_manifest st d)) \<and>
     (\<forall>d. \<forall>(p, ls) \<in> set (picking_manifest (fst (eliminar_pedido st pid)) d).
            p_id p \<noteq> pid \<and> (\<forall>l \<in> set ls. lp_pedido_id l \<noteq> pid)) \<and>
     (\<forall>d. \<forall>(p, q) \<in> set (entries (get_lista_compras (fst (eliminar_pedido st pid)) d)).
            q = sum_list (map lp_cantidad
                  (filter (\<lambda>l. lp_producto l = p \<and> lp_pedido_id l \<noteq> pid \<and> pending_on st d l)
                     (lineas_pedido st)))) \<and>
     (\<forall>d. set (map fst (entries (get_lista_compras (fst (eliminar_pedido st pid)) d)))
            = lp_producto ` {l \<in> set (lineas_pedido st). lp_pedido_id l \<noteq> pid \<and> pending_on st d l})"
proof -
  let ?st = "fst (eliminar_pedido st pid)"
  have L: "\<forall>l \<in> set (lineas_pedido ?st). lp_pedido_id l \<noteq> pid"
    and P: "\<forall>p \<in> set (pedidos ?st). p_id p \<noteq> pid"
    by (simp_all add: eliminar_pedido_def)
  have M: "picking_manifest ?st d = filter (\<lambda>(p, ls). p_id p \<noteq> pid) (picking_manifest st d)" for d
    by (simp add: picking_manifest_def get_pedidos_eliminar)
  have M2: "\<forall>(p, ls) \<in> set (picking_manifest ?st d).
              p_id p \<noteq> pid \<and> (\<forall>l \<in> set ls. lp_pedido_id l \<noteq> pid)" for d
  proof (intro ballI)
    fix e assume e: "e \<in> set (picking_manifest ?st d)"
    obtain p ls where pl: "e = (p, ls)" by (cases e)
    have "p_id p \<noteq> pid" using e pl unfolding M by simp
    moreover have "set ls \<subseteq> set (lineas_pedido ?st)"
      using e pl get_pedidos_lines [of p ls ?st] by (simp add: picking_manifest_def)
    ultimately show "case e of (p, ls) \<Rightarrow> p_id p \<noteq> pid \<and> (\<forall>l \<in> set ls. lp_pedido_id l \<noteq> pid)"
      using L pl by auto
  qed
  have S: "\<forall>(p, q) \<in> set (entries (get_lista_compras ?st d)).
            q = sum_list (map lp_cantidad
                  (filter (\<lambda>l. lp_producto l = p \<and> lp_pedido_id l \<noteq> pid \<and> pending_on st d l)
                     (lineas_pedido st)))" for d
  proof (intro ballI)
    fix e assume e: "e \<in> set (entries (get_lista_compras ?st d))"
    obtain p q where pq: "e = (p, q)" by (cases e)
    from lista_entries_total [of p q ?st d] e pq
    have "q = sum_list (map lp_cantidad
            (filter (\<lambda>l. lp_producto l = p \<and> in_scope ?st d l) (lineas_pedido ?st)))" by simp
    then have "q = sum_list (map lp_cantidad
            (filter (\<lambda>l. lp_producto l = p \<and> lp_pedido_id l \<noteq> pid \<and> in_scope st d l)
               (lineas_pedido st)))"
      by (simp only: scope_eliminar)
    then show "case e of (p, q) \<Rightarrow> q = sum_list (map lp_cantidad
                  (filter (\<lambda>l. lp_producto l = p \<and> lp_pedido_id l \<noteq> pid \<and> pending_on st d l)
                     (lineas_pedido st)))"
      using pq by (simp add: in_scope_pending_on [OF assms])
  qed
  have R: "set (map fst (entries (get_lista_compras ?st d)))
            = lp_producto ` {l \<in> set (lineas_pedido st). lp_pedido_id l \<noteq> pid \<and> pending_on st d l}"
    for d
  proof -
    have "{l \<in> set (lineas_pedido ?st). in_scope ?st d l}
            = set (filter (\<lambda>l. True \<and> in_scope ?st d l) (lineas_pedido ?st))" by simp
    also have "\<dots> = set (filter (\<lambda>l. True \<and> lp_pedido_id l \<noteq> pid \<and> in_scope st d l) (lineas_pedido st))"
      by (simp only: scope_eliminar)
    also have "\<dots> = {l \<in> set (lineas_pedido st). lp_pedido_id l \<noteq> pid \<and> pending_on st d l}"
      by (simp add: in_scope_pending_on [OF assms])
    finally show ?thesis
      using lista_entries_productos(1) [of ?st d] by simp
  qed
  have "snd (eliminar_pedido st pid) = True" by (simp add: eliminar_pedido_def)
  then show ?thesis
    using L P M M2 S R by (intro conjI allI) blast+
qed

theorem eliminar_pedido_removes_order_witness:
  "distinct (map p_id (pedidos ex_store)) \<and>
   map (p_id \<circ> fst) (picking_manifest ex_store ''2024-05-10'') = [1, 2] \<and>
   map (p_id \<circ> fst) (picking_manifest (fst (eliminar_pedido ex_store 2)) ''2024-05-10'') = [1] \<and>
   entries (get_lista_compras ex_store ''2024-05-10'')
     = [(''Manzana'', 4), (''Pera'', 2), (''Leche'', 1)] \<and>
   entries (get_lista_compras (fst (eliminar_pedido ex_store 2)) ''2024-05-10'')
     = [(''Manzana'', 3), (''Pera'', 2)] \<and>
   sum_list (map lp_cantidad
     (filter (\<lambda>l. lp_producto l = ''Manzana'' \<and> lp_pedido_id l \<noteq> 2 \<and>
                  pending_on ex_store ''2024-05-10'' l) (lineas_pedido ex_store))) = 3"
proof -
  have d: "distinct (map p_id (pedidos ex_store))"
    by (simp add: ex_store_def ex_pedido_def)
  note T = eliminar_pedido_removes_order [OF d, of 2]
  note m = T [THEN conjunct2, THEN conjunct2, THEN conjunct2, THEN conjunct1, THEN spec,
      of "''2024-05-10''"]
  note S = T [THEN conjunct2, THEN conjunct2, THEN conjunct2, THEN conjunct2, THEN conjunct2,
      THEN conjunct1, THEN spec, of "''2024-05-10''"]
  have m1: "map (p_id \<circ> fst) (picking_manifest (fst (eliminar_pedido ex_store 2)) ''2024-05-10'') = [1]"
    unfolding m ex_manifest by (simp add: ex_pedido_def)
  have e: "entries (get_lista_compras (fst (eliminar_pedido ex_store 2)) ''2024-05-10'')
     = [(''Manzana'', 3), (''Pera'', 2)]"
    by (simp add: ex_lista_eliminar)
  have mem: "(''Manzana'', 3) \<in> set (entries (get_lista_compras (fst (eliminar_pedido ex_store 2)) ''2024-05-10''))"
    by (simp add: e)
  have s: "sum_list (map lp_cantidad
     (filter (\<lambda>l. lp_producto l = ''Manzana'' \<and> lp_pedido_id l \<noteq> 2 \<and>
                  pending_on ex_store ''2024-05-10'' l) (lineas_pedido ex_store))) = 3"
    using S [THEN bspec, OF mem] by simp
  have m0: "map (p_id \<circ> fst) (picking_manifest ex_store ''2024-05-10'') = [1, 2]"
    unfolding ex_manifest by (simp add: ex_pedido_def)
  have e0: "entries (get_lista_compras ex_store ''2024-05-10'')
     = [(''Manzana'', 4), (''Pera'', 2), (''Leche'', 1)]"
    by (simp add: ex_lista)
  show ?thesis
    by (intro conjI) (rule d m0 m1 e0 e s)+
qed

subsection \<open>Completing an order\<close>



end
